theory Spec2Isabelle
  imports Main "HOL-Library.Sublist"
begin

section \<open>Positions, bytes and faults\<close>

text \<open>
  A \<open>token.Pos\<close> is a Go \<open>int\<close>: the base of the file plus a byte offset, with
  \<open>token.NoPos = 0\<close>. Offsets and lengths are Go \<open>int\<close>s too; they are modelled as
  unbounded integers (a source file is far below \<open>2^63\<close> bytes). A \<open>[]byte\<close> and a Go
  \<open>string\<close> are both lists of bytes.
\<close>

type_synonym pos = int

definition IsValid :: "pos \<Rightarrow> bool" where
  "IsValid p = (p \<noteq> 0)"

definition NL :: char where "NL = CHR 0x0A"
definition CR :: char where "CR = CHR 0x0D"

text \<open>The run-time panics of the code: a nil dereference and a slice or index out of range.\<close>

datatype fault = NilDeref | OutOfRange

text \<open>
  \<open>s[i:j]\<close> on a byte slice. Go panics when the bounds are not \<open>0 \<le> i \<le> j \<le> cap(s)\<close>; the
  model takes the capacity of a slice to be its length.
\<close>

definition slice :: "string \<Rightarrow> int \<Rightarrow> int \<Rightarrow> fault + string" where
  "slice s i j =
     (if 0 \<le> i \<and> i \<le> j \<and> j \<le> int (length s)
      then Inr (take (nat j - nat i) (drop (nat i) s))
      else Inl OutOfRange)"

definition slice_to :: "string \<Rightarrow> int \<Rightarrow> fault + string" where
  "slice_to s j = slice s 0 j"

definition slice_from :: "string \<Rightarrow> int \<Rightarrow> fault + string" where
  "slice_from s i = slice s i (int (length s))"

section \<open>The syntax tree of go/ast\<close>

text \<open>
  The node types the fixer tells apart have a constructor each; every other statement is
  a \<open>Stmt\<close> and every other node (expressions, types, field lists, comments, other
  declarations and specs) an \<open>Other\<close>. Children are kept in the order \<open>astutil.Apply\<close>
  visits them; an absent child (a nil field) is \<open>None\<close>. Where go/ast computes \<open>Pos()\<close>
  and \<open>End()\<close> from fields by indexing a list (\<open>GenDecl\<close>, \<open>AssignStmt\<close> and the
  generic nodes), the node carries the two values as fields.
  A block is the triple \<open>(Lbrace, List, Rbrace)\<close>; an identifier or a basic literal in
  a typed field is the pair of its position and its text.
\<close>

datatype tok = IMPORT | CONST | TYPE | VAR | ASSIGN | DEFINE | OtherTok

datatype node =
    Ident pos string
  | BasicLit pos string
  | ImportSpec "node option" "(pos \<times> string) option" "pos \<times> string" "node option" pos
  | GenDecl pos pos tok "node option" "node list"
  | FuncDecl "node option" "node option" node node "(pos \<times> node list \<times> pos) option"
  | BlockStmt pos "node list" pos
  | AssignStmt pos pos "node list" pos tok "node list"
  | Stmt pos pos "node option list"
  | Other pos pos "node option list"

type_synonym blk = "pos \<times> node list \<times> pos"

record ast_file =
  FileStart :: pos
  Package :: pos
  Doc :: "node option"
  Name :: node
  Decls :: "node list"

fun blockOf :: "blk \<Rightarrow> node" where
  "blockOf (lb, l, rb) = BlockStmt lb l rb"

fun Pos :: "node \<Rightarrow> pos" where
  "Pos (Ident p s) = p"
| "Pos (BasicLit p s) = p"
| "Pos (ImportSpec d nm pth c e) = (case nm of Some (p, s) \<Rightarrow> p | None \<Rightarrow> fst pth)"
| "Pos (GenDecl p e t d specs) = p"
| "Pos (FuncDecl d r n t b) = Pos t"
| "Pos (BlockStmt lb l rb) = lb"
| "Pos (AssignStmt p e lhs tp t rhs) = p"
| "Pos (Stmt p e kids) = p"
| "Pos (Other p e kids) = p"

fun End :: "node \<Rightarrow> pos" where
  "End (Ident p s) = p + int (length s)"
| "End (BasicLit p s) = p + int (length s)"
| "End (ImportSpec d nm pth c e) = (if e \<noteq> 0 then e else fst pth + int (length (snd pth)))"
| "End (GenDecl p e t d specs) = e"
| "End (FuncDecl d r n t b) =
     (case b of
        Some (lb, l, rb) \<Rightarrow>
          (if IsValid rb then rb + 1 else if l \<noteq> [] then last (map End l) else lb + 1)
      | None \<Rightarrow> End t)"
| "End (BlockStmt lb l rb) =
     (if IsValid rb then rb + 1 else if l \<noteq> [] then last (map End l) else lb + 1)"
| "End (AssignStmt p e lhs tp t rhs) = e"
| "End (Stmt p e kids) = e"
| "End (Other p e kids) = e"

text \<open>The children of a node, in the order of \<open>astutil.Apply\<close>.\<close>

fun children :: "node \<Rightarrow> node option list" where
  "children (Ident p s) = []"
| "children (BasicLit p s) = []"
| "children (ImportSpec d nm pth c e) =
     [d, map_option (\<lambda>(p, s). Ident p s) nm, Some (BasicLit (fst pth) (snd pth)), c]"
| "children (GenDecl p e t d specs) = d # map Some specs"
| "children (FuncDecl d r n t b) = [d, r, Some n, Some t, map_option blockOf b]"
| "children (BlockStmt lb l rb) = map Some l"
| "children (AssignStmt p e lhs tp t rhs) = map Some lhs @ map Some rhs"
| "children (Stmt p e kids) = kids"
| "children (Other p e kids) = kids"

text \<open>\<open>case ast.Stmt\<close>: the node implements the statement interface.\<close>

fun isStmt :: "node \<Rightarrow> bool" where
  "isStmt (BlockStmt lb l rb) = True"
| "isStmt (AssignStmt p e lhs tp t rhs) = True"
| "isStmt (Stmt p e kids) = True"
| "isStmt n = False"

section \<open>astutil.Apply\<close>

text \<open>
  \<open>astutil.Apply(root, pre, post)\<close> walks the tree depth first. At every node, and at
  every nil child, it calls \<open>pre\<close> with a cursor; when \<open>pre\<close> returns false the children
  and \<open>post\<close> are skipped. After the children it calls \<open>post\<close>; when \<open>post\<close> returns
  false the whole traversal stops. The callbacks of the fixer update captured variables,
  which are the state \<open>'s\<close> here, and may panic.

  The code compares nodes by pointer (\<open>block == c.Parent()\<close>). The address of a node is
  modelled by its path from the root: the list of child indices leading to it.
  A cursor is the path of the parent (\<open>None\<close> at the root), the path of the node, and
  the node: nil, the file, or a node below it.
\<close>

type_synonym path = "nat list"

datatype cnode = Nil | TheFile ast_file | Nd node

type_synonym 's visit = "path option \<Rightarrow> path \<Rightarrow> cnode \<Rightarrow> 's \<Rightarrow> fault + bool \<times> 's"

fun cnodeOf :: "node option \<Rightarrow> cnode" where
  "cnodeOf None = Nil"
| "cnodeOf (Some n) = Nd n"

fun childrenOf :: "node option \<Rightarrow> node option list" where
  "childrenOf None = []"
| "childrenOf (Some n) = children n"

text \<open>The weight of a tree, the measure of the traversal.\<close>

fun weight :: "node \<Rightarrow> nat" where
  "weight (Ident p s) = 1"
| "weight (BasicLit p s) = 1"
| "weight (ImportSpec d nm pth c e) =
     11 + (case d of None \<Rightarrow> 0 | Some x \<Rightarrow> weight x) + (case c of None \<Rightarrow> 0 | Some x \<Rightarrow> weight x)"
| "weight (GenDecl p e t d specs) =
     3 + (case d of None \<Rightarrow> 0 | Some x \<Rightarrow> weight x) + sum_list (map (\<lambda>x. 2 + weight x) specs)"
| "weight (FuncDecl d r n t b) =
     11 + (case d of None \<Rightarrow> 0 | Some x \<Rightarrow> weight x) + (case r of None \<Rightarrow> 0 | Some x \<Rightarrow> weight x)
       + weight n + weight t
       + (case b of None \<Rightarrow> 0 | Some (lb, l, rb) \<Rightarrow> 1 + sum_list (map (\<lambda>x. 2 + weight x) l))"
| "weight (BlockStmt lb l rb) = 1 + sum_list (map (\<lambda>x. 2 + weight x) l)"
| "weight (AssignStmt p e lhs tp t rhs) =
     1 + sum_list (map (\<lambda>x. 2 + weight x) lhs) + sum_list (map (\<lambda>x. 2 + weight x) rhs)"
| "weight (Stmt p e kids) =
     1 + sum_list (map (\<lambda>k. 2 + (case k of None \<Rightarrow> 0 | Some x \<Rightarrow> weight x)) kids)"
| "weight (Other p e kids) =
     1 + sum_list (map (\<lambda>k. 2 + (case k of None \<Rightarrow> 0 | Some x \<Rightarrow> weight x)) kids)"

fun oweight :: "node option \<Rightarrow> nat" where
  "oweight None = 2"
| "oweight (Some n) = 2 + weight n"

lemma oweight_alt: "oweight k = 2 + (case k of None \<Rightarrow> 0 | Some x \<Rightarrow> weight x)"
  by (cases k) simp_all

lemma sum_oweight_Some: "oweight \<circ> Some = (\<lambda>x. 2 + weight x)"
  by (rule ext) simp

lemma sum_oweight_kids:
  "sum_list (map oweight kids) =
     sum_list (map (\<lambda>k. 2 + (case k of None \<Rightarrow> 0 | Some x \<Rightarrow> weight x)) kids)"
  by (induction kids) (simp_all add: oweight_alt)

lemma weight_children: "sum_list (map oweight (children n)) < weight n"
proof (cases n)
  case (ImportSpec d nm pth c e)
  then show ?thesis by (cases d; cases nm; cases c) auto
next
  case (GenDecl p e t d specs)
  then show ?thesis by (cases d) (simp_all add: sum_oweight_Some)
next
  case (FuncDecl d r nm t b)
  then show ?thesis by (cases d; cases r; cases b) (auto simp: sum_oweight_Some)
next
  case (BlockStmt lb l rb)
  then show ?thesis by (simp add: sum_oweight_Some)
next
  case (AssignStmt p e lhs tp t rhs)
  then show ?thesis by (simp add: sum_oweight_Some)
next
  case (Stmt p e kids)
  then show ?thesis by (simp add: sum_oweight_kids)
next
  case (Other p e kids)
  then show ?thesis by (simp add: sum_oweight_kids)
qed simp_all

lemma weight_childrenOf: "Suc (sum_list (map oweight (childrenOf k))) < oweight k"
  using weight_children [of "the k"] by (cases k) simp_all

lemma oweight_pos: "0 < oweight k"
  by (cases k) simp_all

function applyNode :: "'s visit \<Rightarrow> 's visit \<Rightarrow> path option \<Rightarrow> path \<Rightarrow> node option \<Rightarrow> 's
    \<Rightarrow> fault + bool \<times> 's"
  and applyList :: "'s visit \<Rightarrow> 's visit \<Rightarrow> path \<Rightarrow> nat \<Rightarrow> node option list \<Rightarrow> 's
    \<Rightarrow> fault + bool \<times> 's"
where
  "applyNode pre post par p n s =
     (case pre par p (cnodeOf n) s of
        Inl e \<Rightarrow> Inl e
      | Inr (descend, s1) \<Rightarrow>
          if descend then
            (case applyList pre post p 0 (childrenOf n) s1 of
               Inl e \<Rightarrow> Inl e
             | Inr (go, s2) \<Rightarrow> if go then post par p (cnodeOf n) s2 else Inr (False, s2))
          else Inr (True, s1))"
| "applyList pre post p i [] s = Inr (True, s)"
| "applyList pre post p i (c # cs) s =
     (case applyNode pre post (Some p) (p @ [i]) c s of
        Inl e \<Rightarrow> Inl e
      | Inr (go, s1) \<Rightarrow> if go then applyList pre post p (Suc i) cs s1 else Inr (False, s1))"
  by pat_completeness auto
termination
  by (relation "measure (\<lambda>x. case x of
          Inl (pre, post, par, p, n, s) \<Rightarrow> oweight n
        | Inr (pre, post, p, i, cs, s) \<Rightarrow> Suc (sum_list (map oweight cs)))")
     (simp_all add: weight_childrenOf oweight_pos)

text \<open>
  The root of the walk is the file; its children are \<open>Doc\<close>, \<open>Name\<close> and \<open>Decls\<close>.
  The result is the state the callbacks leave behind.
\<close>

definition Apply :: "'s visit \<Rightarrow> 's visit \<Rightarrow> ast_file \<Rightarrow> 's \<Rightarrow> fault + 's" where
  "Apply pre post f s =
     (case pre None [] (TheFile f) s of
        Inl e \<Rightarrow> Inl e
      | Inr (descend, s1) \<Rightarrow>
          if descend then
            (case applyList pre post [] 0 (Doc f # Some (Name f) # map Some (Decls f)) s1 of
               Inl e \<Rightarrow> Inl e
             | Inr (go, s2) \<Rightarrow>
                 if go then (case post None [] (TheFile f) s2 of Inl e \<Rightarrow> Inl e | Inr (b, s3) \<Rightarrow> Inr s3)
                 else Inr s2)
          else Inr s1)"

text \<open>A nil \<open>post\<close> callback is never called: it is the callback that always continues.\<close>

definition noPost :: "'s visit" where
  "noPost par p c s = Inr (True, s)"

section \<open>findEnclosing\<close>

text \<open>
  The three captured results of \<open>findEnclosing\<close>: a statement, a block and a function
  body, each nil or a pointer to a node. \<open>fnBody = n.Body\<close> points at child 4 of the
  function declaration.
\<close>

record enclosing =
  stmt :: "(path \<times> node) option"
  block :: "(path \<times> blk) option"
  fnBody :: "(path \<times> blk) option"

fun findEnclosing_pre :: "pos \<Rightarrow> enclosing visit" where
  "findEnclosing_pre pos par p Nil s = Inr (False, s)"
| "findEnclosing_pre pos par p (TheFile f) s =
     (if Package f > pos then Inr (False, s) else Inr (True, s))"
| "findEnclosing_pre pos par p (Nd n) s =
     (if Pos n > pos then Inr (False, s)
      else
        (case n of
           BlockStmt lb l rb \<Rightarrow>
             (if End n \<ge> pos then Inr (True, s\<lparr>block := Some (p, (lb, l, rb))\<rparr>)
              else if IsValid rb then Inr (True, s)
              else Inr (True, s\<lparr>block := Some (p, (lb, l, rb))\<rparr>))
         | FuncDecl d r nm t b \<Rightarrow>
             (if End n \<ge> pos then Inr (True, s\<lparr>fnBody := map_option (Pair (p @ [4])) b\<rparr>)
              else
                (case b of
                   None \<Rightarrow> Inl NilDeref
                 | Some (lb, l, rb) \<Rightarrow>
                     (if IsValid rb then Inr (True, s)
                      else Inr (True, s\<lparr>fnBody := Some (p @ [4], (lb, l, rb))\<rparr>))))
         | _ \<Rightarrow>
             (if isStmt n then
                (case block s of
                   None \<Rightarrow> Inr (True, s)
                 | Some (bp, b) \<Rightarrow>
                     (if par = Some bp then Inr (True, s\<lparr>stmt := Some (p, n)\<rparr>)
                      else Inr (True, s)))
              else Inr (True, s))))"

definition findEnclosing_post :: "enclosing visit" where
  "findEnclosing_post par p c s =
     (case block s of
        None \<Rightarrow> Inr (True, s)
      | Some (bp, b) \<Rightarrow> if bp = p then Inr (False, s) else Inr (True, s))"

definition findEnclosing :: "ast_file \<Rightarrow> pos \<Rightarrow> fault + enclosing" where
  "findEnclosing file pos =
     Apply (findEnclosing_pre pos) findEnclosing_post file
       \<lparr>stmt = None, block = None, fnBody = None\<rparr>"

section \<open>findRangeToFix\<close>

definition offsetOf :: "ast_file \<Rightarrow> pos \<Rightarrow> int" where
  "offsetOf file t = t - FileStart file"

text \<open>
  The loop over \<open>fnBody.List\<close>: the last statement of the function body that starts
  before \<open>pos\<close>, stopping at the first one that does not.
\<close>

fun reselect :: "pos \<Rightarrow> path \<Rightarrow> nat \<Rightarrow> node list \<Rightarrow> (path \<times> node) option
    \<Rightarrow> (path \<times> node) option" where
  "reselect pos bp i [] statement = statement"
| "reselect pos bp i (x # xs) statement =
     (if Pos x < pos then reselect pos bp (Suc i) xs (Some (bp @ [i], x)) else statement)"

text \<open>
  \<open>bytes.IndexFunc\<close> with the closure of the forward scan; \<open>wasNewline\<close> is the captured
  variable. The Go function decodes runes; every byte from \<open>0x80\<close> up, in a well-formed
  sequence or not, takes the last branch and clears \<open>wasNewline\<close>, and the characters
  looked for are ASCII, so scanning the bytes finds the same index. \<open>-1\<close> is "not found".
\<close>

fun indexFwd :: "bool \<Rightarrow> int \<Rightarrow> string \<Rightarrow> int" where
  "indexFwd wasNewline i [] = - 1"
| "indexFwd wasNewline i (c # cs) =
     (if c \<in> set ''}fvct/'' then (if wasNewline then i else indexFwd wasNewline (i + 1) cs)
      else indexFwd (c = NL \<or> c = CR) (i + 1) cs)"

text \<open>
  \<open>bytes.LastIndexFunc\<close> with the closure of the backward scan. It visits the bytes
  from the last to the first: the argument is the reversed slice, and the head of a list
  of length \<open>n + 1\<close> is the byte at index \<open>n\<close>.
\<close>

fun lastIndexBwd :: "bool \<Rightarrow> string \<Rightarrow> int" where
  "lastIndexBwd wasNewline [] = - 1"
| "lastIndexBwd wasNewline (c # cs) =
     (if c = CHR ''}'' then (if wasNewline then int (length cs) else lastIndexBwd wasNewline cs)
      else lastIndexBwd (c = NL \<or> c = CR) cs)"

text \<open>
  The second half of \<open>findRangeToFix\<close>, from \<open>tail := content[start:]\<close> on: the scan
  for the likely closing brace of the function. The result is \<open>(start, end, tail)\<close>; a
  nil tail is the empty list.
\<close>

definition findRangeToFix_scan :: "string \<Rightarrow> int \<Rightarrow> fault + int \<times> int \<times> string" where
  "findRangeToFix_scan content start =
     (case slice_from content start of
        Inl e \<Rightarrow> Inl e
      | Inr tail \<Rightarrow>
          (let e1 = indexFwd False 0 tail in
           if e1 > - 1 \<and> tail ! nat e1 = CHR ''}'' then Inr (start, start + e1, [])
           else
             (let e2 = (if e1 = - 1 then int (length tail) - 1 else e1) in
              case slice_to tail e2 of
                Inl e \<Rightarrow> Inl e
              | Inr scanned \<Rightarrow>
                  (let closeBrace = lastIndexBwd False (rev scanned) in
                   if closeBrace > - 1 then Inr (start, start + closeBrace, [])
                   else Inr (start, start + e2, ''}'')))))"

definition findRangeToFix :: "ast_file option \<Rightarrow> string \<Rightarrow> int \<Rightarrow> fault + int \<times> int \<times> string" where
  "findRangeToFix fileptr content offset =
     (case fileptr of
        None \<Rightarrow> Inl NilDeref
      | Some file \<Rightarrow>
          (let pos = FileStart file + offset in
           case findEnclosing file pos of
             Inl e \<Rightarrow> Inl e
           | Inr r \<Rightarrow>
               (if (case block r of None \<Rightarrow> False | Some (bp, lb, l, rb) \<Rightarrow> IsValid rb) then
                  (case (stmt r, block r) of
                     (Some (sp, statement), Some (bp, lb, l, rb)) \<Rightarrow>
                       Inr (offsetOf file (Pos statement),
                            offsetOf file (End (BlockStmt lb l rb)) - 1, [])
                   | _ \<Rightarrow> Inl NilDeref)
                else
                  (case (fnBody r, stmt r) of
                     (Some (fp, flb, fl, frb), Some st) \<Rightarrow>
                       (case (if map_option fst (block r) = Some fp then Some st
                              else reselect pos fp 0 fl (Some st)) of
                          None \<Rightarrow> Inl NilDeref
                        | Some (sp, statement) \<Rightarrow>
                            findRangeToFix_scan content (offsetOf file (Pos statement)))
                   | _ \<Rightarrow> Inr (0, 0, [])))))"

section \<open>The fixer and its patches\<close>

text \<open>
  \<open>Fixed\<close> maps a file name to its patched content; the fixer updates it in place, the
  model returns the new fixer. What the code prints is left out. The map is taken to be
  non-nil, as every caller makes it.
\<close>

record fixer =
  mode :: string
  verbose :: bool
  Fixed :: "string \<rightharpoonup> string"

definition update :: "fixer \<Rightarrow> string \<Rightarrow> string list \<Rightarrow> bool \<times> fixer" where
  "update f filename content = (True, f\<lparr>Fixed := (Fixed f)(filename \<mapsto> concat content)\<rparr>)"

definition newLinesInRange :: "string \<Rightarrow> string" where
  "newLinesInRange s = fold (\<lambda>b n. if b = NL \<or> b = CR then n @ [b] else n) s []"

text \<open>\<open>d.Pos() <= pos && d.End() >= pos\<close>\<close>

definition covers :: "pos \<Rightarrow> node \<Rightarrow> bool" where
  "covers pos d = (Pos d \<le> pos \<and> End d \<ge> pos)"

definition fixUnusedImport :: "fixer \<Rightarrow> ast_file option \<Rightarrow> string \<Rightarrow> string \<Rightarrow> int
    \<Rightarrow> fault + bool \<times> fixer" where
  "fixUnusedImport f fileptr filename content offset =
     (case fileptr of
        None \<Rightarrow> Inl NilDeref
      | Some file \<Rightarrow>
          (let pos = FileStart file + offset in
           case find (covers pos) (Decls file) of
             None \<Rightarrow> Inr (False, f)
           | Some (GenDecl dp de t doc specs) \<Rightarrow>
               (if t = IMPORT then
                  (case find (covers pos) specs of
                     None \<Rightarrow> Inr (False, f)
                   | Some (ImportSpec sdoc nm pth c e) \<Rightarrow>
                       (let (insertPos, delLen) =
                              (case nm of
                                 None \<Rightarrow> (fst pth - FileStart file, 0)
                               | Some (np, name) \<Rightarrow> (np - FileStart file, int (length name) + 1))
                        in case slice_to content insertPos of
                             Inl x \<Rightarrow> Inl x
                           | Inr front \<Rightarrow>
                               (case slice_from content (insertPos + delLen) of
                                  Inl x \<Rightarrow> Inl x
                                | Inr back \<Rightarrow> Inr (update f filename [front, ''_ '', back])))
                   | Some other \<Rightarrow> Inr (False, f))
                else Inr (False, f))
           | Some other \<Rightarrow> Inr (False, f)))"

text \<open>The callback of \<open>fixUnusedVar\<close>; the state is the captured \<open>ident\<close>.\<close>

fun fixUnusedVar_pre :: "pos \<Rightarrow> (pos \<times> string) option visit" where
  "fixUnusedVar_pre pos par p (Nd (Ident ip name)) ident =
     (let ident' = (if covers pos (Ident ip name) then Some (ip, name) else ident)
      in Inr (ident' = None, ident'))"
| "fixUnusedVar_pre pos par p c ident = Inr (ident = None, ident)"

definition fixUnusedVar :: "fixer \<Rightarrow> ast_file option \<Rightarrow> string \<Rightarrow> string \<Rightarrow> int
    \<Rightarrow> fault + bool \<times> fixer" where
  "fixUnusedVar f fileptr filename content offset =
     (case fileptr of
        None \<Rightarrow> Inl NilDeref
      | Some file \<Rightarrow>
          (case Apply (fixUnusedVar_pre (FileStart file + offset)) noPost file None of
             Inl x \<Rightarrow> Inl x
           | Inr None \<Rightarrow> Inr (False, f)
           | Inr (Some (ip, name)) \<Rightarrow>
               (let insertPos = ip - FileStart file
                in case slice_to content insertPos of
                     Inl x \<Rightarrow> Inl x
                   | Inr front \<Rightarrow>
                       (case slice_from content (insertPos + int (length name)) of
                          Inl x \<Rightarrow> Inl x
                        | Inr back \<Rightarrow> Inr (update f filename [front, ''_'', back])))))"

text \<open>
  The callback of \<open>fixUselessAssignment\<close>; the state is the captured \<open>assign\<close>, of which
  the code reads \<open>Tok\<close> and \<open>TokPos\<close>.
\<close>

fun fixUselessAssignment_pre :: "pos \<Rightarrow> (pos \<times> tok) option visit" where
  "fixUselessAssignment_pre pos par p (Nd (AssignStmt ap ae lhs tp t rhs)) assign =
     (let assign' = (if covers pos (AssignStmt ap ae lhs tp t rhs) then Some (tp, t) else assign)
      in Inr (assign' = None, assign'))"
| "fixUselessAssignment_pre pos par p c assign = Inr (assign = None, assign)"

definition fixUselessAssignment :: "fixer \<Rightarrow> ast_file option \<Rightarrow> string \<Rightarrow> string \<Rightarrow> int
    \<Rightarrow> fault + bool \<times> fixer" where
  "fixUselessAssignment f fileptr filename content offset =
     (case fileptr of
        None \<Rightarrow> Inl NilDeref
      | Some file \<Rightarrow>
          (case Apply (fixUselessAssignment_pre (FileStart file + offset)) noPost file None of
             Inl x \<Rightarrow> Inl x
           | Inr None \<Rightarrow> Inr (False, f)
           | Inr (Some (tp, t)) \<Rightarrow>
               (if t = DEFINE then
                  (let tokOff = tp - FileStart file
                   in case slice_to content tokOff of
                        Inl x \<Rightarrow> Inl x
                      | Inr front \<Rightarrow>
                          (case slice_from content (tokOff + 1) of
                             Inl x \<Rightarrow> Inl x
                           | Inr back \<Rightarrow> Inr (update f filename [front, back])))
                else Inr (False, f))))"

text \<open>
  \<open>fixError\<close>. \<open>strings.Contains\<close> is \<open>sublist\<close>. The parameter \<open>quote\<close> is
  \<open>fmt.Sprintf("%#v", msg)\<close> of the Go library: the message as a Go string literal.
\<close>

definition fixError :: "(string \<Rightarrow> string) \<Rightarrow> fixer \<Rightarrow> ast_file option \<Rightarrow> string \<Rightarrow> string \<Rightarrow> int
    \<Rightarrow> string \<Rightarrow> fault + bool \<times> fixer" where
  "fixError quote f file filename content offset msg =
     (if sublist ''imported and not used'' msg then fixUnusedImport f file filename content offset
      else if sublist ''declared and not used'' msg then fixUnusedVar f file filename content offset
      else if sublist ''no new variables on left side of :='' msg
      then fixUselessAssignment f file filename content offset
      else
        (case findRangeToFix file content offset of
           Inl x \<Rightarrow> Inl x
         | Inr (start, end, tail) \<Rightarrow>
             (if start = end then Inr (False, f)
              else if start > offset \<or> end < offset then Inr (False, f)
              else
                (case slice content start offset of
                   Inl x \<Rightarrow> Inl x
                 | Inr removedFront \<Rightarrow>
                     (case slice content offset end of
                        Inl x \<Rightarrow> Inl x
                      | Inr removedBack \<Rightarrow>
                          (let newCode = newLinesInRange removedFront @ ''panic('' @ quote msg
                                           @ '')'' @ newLinesInRange removedBack
                           in case slice content 0 start of
                                Inl x \<Rightarrow> Inl x
                              | Inr front \<Rightarrow>
                                  (case slice_from content end of
                                     Inl x \<Rightarrow> Inl x
                                   | Inr back \<Rightarrow>
                                       Inr (update f filename [front, newCode, tail, back]))))))))"

section \<open>The collaborators\<close>

text \<open>
  What the fixer calls outside this repository is a parameter of the model:
  \<^item> \<open>fmtQuote\<close>: \<open>fmt.Sprintf("%#v", msg)\<close>;
  \<^item> \<open>parseGo\<close>: \<open>parser.ParseFile(fset, filename, content, 0)\<close>, the tree (nil or not)
    and the error: none, a \<open>scanner.ErrorList\<close> of offsets and messages, or another one;
  \<^item> \<open>osReadFile\<close>: \<open>os.ReadFile\<close>;
  \<^item> \<open>goCache\<close>: the output of \<open>go env GOCACHE\<close>, trimmed;
  \<^item> \<open>loadFiles\<close> and \<open>typeCheck\<close>: the two halves of \<open>packages.Load\<close> around its calls of
    the \<open>ParseFile\<close> hook: the files it reads for the patterns under the overlay (or its
    error), and the packages it builds from the parsed files;
  \<^item> \<open>getBrokenPackages\<close>: the method of that name of the runner, which makes the
    temporary files and runs \<open>go build\<close>. It is given the number of the attempt, the
    overlay and the fields \<open>exeFile\<close> and \<open>overlayFile\<close>; it answers an error or the unit
    names of the \<open>#\<close> lines of the output (none when the build succeeds), and the new
    values of the two fields.
\<close>

datatype goerror = GoError string

datatype perror = ErrorList "(int \<times> string) list" | OtherError string

type_synonym parsed = "ast_file option \<times> perror option"

text \<open>
  A \<open>types.Error\<close> with what the file set answers for its position: \<open>tePos\<close> is \<open>e.Pos\<close>,
  \<open>teFilename\<close> and \<open>teOffset\<close> are \<open>PositionFor(e.Pos, false)\<close>, the adjusted fields are
  \<open>PositionFor(e.Pos, true)\<close>, which follows \<open>//line\<close> directives.
\<close>

record type_error =
  tePos :: pos
  teMsg :: string
  teFilename :: string
  teOffset :: int
  teAdjFilename :: string
  teAdjLine :: int
  teAdjColumn :: int

record package =
  Syntax :: "ast_file list"
  TypeErrors :: "type_error list"

record ext =
  fmtQuote :: "string \<Rightarrow> string"
  parseGo :: "string \<Rightarrow> string \<Rightarrow> parsed"
  osReadFile :: "string \<Rightarrow> goerror + string"
  goCache :: string
  loadFiles :: "string \<Rightarrow> string list \<Rightarrow> (string \<rightharpoonup> string) \<Rightarrow> goerror + (string \<times> string) list"
  typeCheck :: "string \<Rightarrow> string list \<Rightarrow> (string \<times> parsed) list \<Rightarrow> package list"
  getBrokenPackages :: "nat \<Rightarrow> (string \<rightharpoonup> string) \<Rightarrow> string \<Rightarrow> string
    \<Rightarrow> (goerror + string list) \<times> string \<times> string"

section \<open>parseFile\<close>

text \<open>
  The loop of \<open>parseFile\<close>. The argument \<open>i\<close> is the counter of the code before \<open>i++\<close>.
  The result is what the call returns (or its panic), the fixer, and the value of the
  counter at the end: the number of calls of \<open>parser.ParseFile\<close>.
  \<open>f.Fixed[filename]\<close> of a missing key is the nil slice.
\<close>

function parseFile_loop :: "ext \<Rightarrow> fixer \<Rightarrow> string \<Rightarrow> string \<Rightarrow> nat
    \<Rightarrow> (fault + parsed) \<times> fixer \<times> nat" where
  "parseFile_loop x f filename content i =
     (case parseGo x filename content of
        (file, None) \<Rightarrow> (Inr (file, None), f, Suc i)
      | (file, Some (OtherError m)) \<Rightarrow> (Inr (file, Some (OtherError m)), f, Suc i)
      | (file, Some (ErrorList errs)) \<Rightarrow>
          (if Suc i \<ge> 10 then (Inr (file, Some (ErrorList errs)), f, Suc i)
           else
             (case errs of
                [] \<Rightarrow> (Inr (file, Some (ErrorList errs)), f, Suc i)
              | (offset, msg) # rest \<Rightarrow>
                  (case fixError (fmtQuote x) f file filename content offset msg of
                     Inl p \<Rightarrow> (Inl p, f, Suc i)
                   | Inr (fixed, f') \<Rightarrow>
                       if fixed then
                         parseFile_loop x f' filename
                           (case Fixed f' filename of None \<Rightarrow> [] | Some c \<Rightarrow> c) (Suc i)
                       else (Inr (file, Some (ErrorList errs)), f', Suc i)))))"
  by pat_completeness auto
termination
  by (relation "measure (\<lambda>(x, f, filename, content, i). 10 - i)") auto

declare parseFile_loop.simps [simp del]

definition parseFile :: "ext \<Rightarrow> fixer \<Rightarrow> string \<Rightarrow> string \<Rightarrow> (fault + parsed) \<times> fixer \<times> nat" where
  "parseFile x f filename content = parseFile_loop x f filename content 0"

section \<open>fixPkg and Fix\<close>

text \<open>\<open>File.Pos()\<close> is \<open>Package\<close>; \<open>File.End()\<close> is the end of the last declaration, or of the name.\<close>

definition fileEnd :: "ast_file \<Rightarrow> pos" where
  "fileEnd file = (if Decls file \<noteq> [] then End (last (Decls file)) else End (Name file))"

definition readFile :: "ext \<Rightarrow> fixer \<Rightarrow> string \<Rightarrow> goerror + string" where
  "readFile x f filename =
     (case Fixed f filename of Some ret \<Rightarrow> Inr ret | None \<Rightarrow> osReadFile x filename)"

text \<open>The loop over \<open>pkg.Syntax\<close>: the last file whose span holds \<open>e.Pos\<close>, or nil.\<close>

definition syntaxFor :: "ast_file list \<Rightarrow> pos \<Rightarrow> ast_file option" where
  "syntaxFor syntax p =
     fold (\<lambda>a file. if Package a \<le> p \<and> fileEnd a \<ge> p then Some a else file) syntax None"

text \<open>
  The loop of the cgo branch, which turns a line and a column into an offset:
  \<open>lno\<close> and \<open>cno\<close> are its counters, \<open>i\<close> the index of the byte \<open>b\<close>, and \<open>offset\<close> keeps its
  value when the loop ends without a match.
\<close>

fun lineColOffset :: "int \<Rightarrow> int \<Rightarrow> int \<Rightarrow> int \<Rightarrow> int \<Rightarrow> string \<Rightarrow> int \<Rightarrow> int" where
  "lineColOffset line column lno cno i [] offset = offset"
| "lineColOffset line column lno cno i (b # bs) offset =
     (if b = NL then lineColOffset line column (lno + 1) cno (i + 1) bs offset
      else if lno = line then
        (if cno + 1 = column then i
         else lineColOffset line column lno (cno + 1) (i + 1) bs offset)
      else lineColOffset line column lno cno (i + 1) bs offset)"

text \<open>
  \<open>fixPkg\<close> returns \<open>(bool, error)\<close>: \<open>Inl\<close> the error, \<open>Inr\<close> the flag. Only
  \<open>pkg.TypeErrors[0]\<close> is read.
\<close>

definition fixPkg :: "ext \<Rightarrow> fixer \<Rightarrow> package \<Rightarrow> fault + (goerror + bool) \<times> fixer" where
  "fixPkg x f pkg =
     (case TypeErrors pkg of
        [] \<Rightarrow> Inr (Inr False, f)
      | e # others \<Rightarrow>
          (if prefix (goCache x) (teFilename e) then
             (case readFile x f (teAdjFilename e) of
                Inl err \<Rightarrow> Inr (Inl err, f)
              | Inr content \<Rightarrow>
                  (case parseGo x (teAdjFilename e) content of
                     (file, Some err) \<Rightarrow> Inr (Inr False, f)
                   | (file, None) \<Rightarrow>
                       (case fixError (fmtQuote x) f file (teAdjFilename e) content
                               (lineColOffset (teAdjLine e) (teAdjColumn e) 1 0 0 content (teOffset e))
                               (teMsg e) of
                          Inl p \<Rightarrow> Inl p
                        | Inr (fixed, f') \<Rightarrow> Inr (Inr fixed, f'))))
           else
             (case readFile x f (teFilename e) of
                Inl err \<Rightarrow> Inr (Inl err, f)
              | Inr content \<Rightarrow>
                  (case fixError (fmtQuote x) f (syntaxFor (Syntax pkg) (tePos e)) (teFilename e)
                          content (teOffset e) (teMsg e) of
                     Inl p \<Rightarrow> Inl p
                   | Inr (fixed, f') \<Rightarrow> Inr (Inr fixed, f')))))"

text \<open>
  \<open>packages.Load\<close> with the \<open>ParseFile\<close> hook set to \<open>parseFile\<close> and the overlay to
  \<open>f.Fixed\<close>: the hook is called once for each file read, here one file after the other.
\<close>

fun parseAll :: "ext \<Rightarrow> fixer \<Rightarrow> (string \<times> string) list \<Rightarrow> fault + (string \<times> parsed) list \<times> fixer" where
  "parseAll x f [] = Inr ([], f)"
| "parseAll x f ((filename, content) # rest) =
     (case parseFile x f filename content of
        (Inl p, f', n) \<Rightarrow> Inl p
      | (Inr r, f', n) \<Rightarrow>
          (case parseAll x f' rest of
             Inl p \<Rightarrow> Inl p
           | Inr (rs, f'') \<Rightarrow> Inr ((filename, r) # rs, f'')))"

definition Load :: "ext \<Rightarrow> fixer \<Rightarrow> string list \<Rightarrow> fault + (goerror + package list) \<times> fixer" where
  "Load x f pkgNames =
     (case loadFiles x (mode f) pkgNames (Fixed f) of
        Inl err \<Rightarrow> Inr (Inl err, f)
      | Inr srcs \<Rightarrow>
          (case parseAll x f srcs of
             Inl p \<Rightarrow> Inl p
           | Inr (files, f') \<Rightarrow> Inr (Inr (typeCheck x (mode f) pkgNames files), f')))"

text \<open>The loop over \<open>pkgs\<close> in \<open>Fix\<close>; \<open>fixed\<close> is its flag.\<close>

fun fixPkgs :: "ext \<Rightarrow> fixer \<Rightarrow> package list \<Rightarrow> bool \<Rightarrow> fault + (goerror + bool) \<times> fixer" where
  "fixPkgs x f [] fixed = Inr (Inr fixed, f)"
| "fixPkgs x f (pkg # pkgs) fixed =
     (case fixPkg x f pkg of
        Inl p \<Rightarrow> Inl p
      | Inr (Inl err, f') \<Rightarrow> Inr (Inl err, f')
      | Inr (Inr b, f') \<Rightarrow> fixPkgs x f' pkgs (if b then True else fixed))"

text \<open>
  The loop of \<open>Fix\<close>, from the value \<open>i\<close> of its counter. The result is the error returned
  (or none, or the panic), the fixer, and the number of passes made, which is the number
  of calls of \<open>packages.Load\<close>.
\<close>

function Fix_loop :: "ext \<Rightarrow> fixer \<Rightarrow> string list \<Rightarrow> nat \<Rightarrow> (fault + goerror option) \<times> fixer \<times> nat" where
  "Fix_loop x f pkgNames i =
     (if i < 10 then
        (case Load x f pkgNames of
           Inl p \<Rightarrow> (Inl p, f, Suc i)
         | Inr (Inl (GoError m), f1) \<Rightarrow>
             (Inr (Some (GoError (''packages.Load failed: '' @ m))), f1, Suc i)
         | Inr (Inr pkgs, f1) \<Rightarrow>
             (case fixPkgs x f1 pkgs False of
                Inl p \<Rightarrow> (Inl p, f1, Suc i)
              | Inr (Inl err, f2) \<Rightarrow> (Inr (Some err), f2, Suc i)
              | Inr (Inr fixed, f2) \<Rightarrow>
                  if fixed then Fix_loop x f2 pkgNames (Suc i) else (Inr None, f2, Suc i)))
      else (Inr None, f, i))"
  by pat_completeness auto
termination
  by (relation "measure (\<lambda>(x, f, pkgNames, i). 10 - i)") auto

declare Fix_loop.simps [simp del]

definition Fix :: "ext \<Rightarrow> fixer \<Rightarrow> string list \<Rightarrow> (fault + goerror option) \<times> fixer \<times> nat" where
  "Fix x f pkgNames = Fix_loop x f pkgNames 0"

section \<open>The runner\<close>

text \<open>
  The fields of \<open>Runner\<close> that \<open>Prepare\<close> and \<open>Run\<close> read or write. \<open>r.fixed\<close> and the
  \<open>Fixed\<close> of the fixer made in \<open>Prepare\<close> are one map: the loop carries the fixer, and
  the runner gets the map back when \<open>Prepare\<close> returns.
\<close>

record runner =
  rmode :: string
  rverbose :: bool
  buildArgs :: "string list"
  runArgs :: "string list"
  built :: bool
  rfixed :: "string \<rightharpoonup> string"
  overlayFile :: string
  exeFile :: string

text \<open>
  The loop over \<open>toFix\<close> in \<open>Prepare\<close>. \<open>fixed\<close> is the set of names marked true in the
  map of that name, \<open>clidx\<close> the index of \<open>command-line-arguments\<close>. \<open>None\<close> is the
  \<open>return nil\<close> at a name already marked.
\<close>

fun markFixed :: "string set \<Rightarrow> int \<Rightarrow> nat \<Rightarrow> string list \<Rightarrow> (string set \<times> int) option" where
  "markFixed fixed clidx i [] = Some (fixed, clidx)"
| "markFixed fixed clidx i (pkg # rest) =
     (if pkg \<in> fixed then None
      else markFixed (insert pkg fixed)
             (if pkg = ''command-line-arguments'' then int i else clidx) (Suc i) rest)"

text \<open>
  The loop of \<open>Prepare\<close> has no bound of its own, so it is a partial function: \<open>None\<close>
  is a loop that never ends. \<open>k\<close> counts the builds made so far.
\<close>

partial_function (option) Prepare_loop :: "ext \<Rightarrow> runner \<Rightarrow> fixer \<Rightarrow> string set \<Rightarrow> nat
    \<Rightarrow> (fault + goerror option \<times> runner) option" where
  "Prepare_loop x r0 fixer fixed k =
     (case getBrokenPackages x k (Fixed fixer) (exeFile r0) (overlayFile r0) of
        (res, exe, overlay) \<Rightarrow>
          (let r = r0\<lparr>rfixed := Fixed fixer, exeFile := exe, overlayFile := overlay\<rparr> in
           case res of
             Inl err \<Rightarrow> Some (Inr (Some err, r))
           | Inr toFix \<Rightarrow>
               (if toFix = [] then Some (Inr (None, r\<lparr>built := True\<rparr>))
                else
                  (case markFixed fixed (- 1) 0 toFix of
                     None \<Rightarrow> Some (Inr (None, r))
                   | Some (fixed', clidx) \<Rightarrow>
                       (case (if clidx > - 1 then Fix x fixer (buildArgs r)
                              else (Inr None, fixer, 0)) of
                          (Inl p, fixer1, n) \<Rightarrow> Some (Inl p)
                        | (Inr (Some err), fixer1, n) \<Rightarrow>
                            Some (Inr (Some err, r\<lparr>rfixed := Fixed fixer1\<rparr>))
                        | (Inr None, fixer1, n) \<Rightarrow>
                            (case Fix x fixer1
                                    (if clidx > - 1
                                     then take (nat clidx) toFix @ drop (nat clidx + 1) toFix
                                     else toFix) of
                               (Inl p, fixer2, m) \<Rightarrow> Some (Inl p)
                             | (Inr (Some err), fixer2, m) \<Rightarrow>
                                 Some (Inr (Some err, r\<lparr>rfixed := Fixed fixer2\<rparr>))
                             | (Inr None, fixer2, m) \<Rightarrow>
                                 Prepare_loop x r fixer2 fixed' (Suc k)))))))"

definition Prepare :: "ext \<Rightarrow> runner \<Rightarrow> (fault + goerror option \<times> runner) option" where
  "Prepare x r =
     Prepare_loop x r \<lparr>mode = rmode r, verbose = rverbose r, Fixed = rfixed r\<rparr> {} 0"

text \<open>The command that \<open>Run\<close> executes, a program and its arguments, or its error.\<close>

datatype command = Command string "string list"

definition Run :: "runner \<Rightarrow> goerror + command" where
  "Run r =
     (if built r then
        (if rmode r = ''run'' then Inr (Command (exeFile r) (runArgs r))
         else if rmode r = ''test'' then
           Inr (Command ''go'' (''test'' #
                  (if overlayFile r = [] then buildArgs r
                   else [''-vet=off'', ''-overlay='' @ overlayFile r] @ buildArgs r)))
         else if rmode r = ''build'' then
           Inr (Command ''go'' (''build'' #
                  (if overlayFile r = [] then buildArgs r
                   else [''-overlay='' @ overlayFile r] @ buildArgs r)))
         else Inl (GoError (rmode r @ '' is not supported yet'')))
      else Inr (Command ''go'' (rmode r # buildArgs r @ runArgs r)))"

section \<open>Example inputs\<close>

text \<open>
  Go's \<open>%#v\<close> of a string made of printable ASCII, quotes, backslashes, line breaks and
  tabs: the Go literal with its escapes. It stands for \<open>fmtQuote\<close> in the examples.
\<close>

definition DQ :: char where "DQ = CHR 0x22"
definition TAB :: char where "TAB = CHR 0x09"

fun goQuote_body :: "string \<Rightarrow> string" where
  "goQuote_body [] = []"
| "goQuote_body (c # cs) =
     (if c = CHR 0x22 then [CHR 0x5C, CHR 0x22]
      else if c = CHR 0x5C then [CHR 0x5C, CHR 0x5C]
      else if c = CHR 0x0A then [CHR 0x5C, CHR ''n'']
      else if c = CHR 0x0D then [CHR 0x5C, CHR ''r'']
      else if c = CHR 0x09 then [CHR 0x5C, CHR ''t'']
      else [c]) @ goQuote_body cs"

definition goQuote :: "string \<Rightarrow> string" where
  "goQuote s = [CHR 0x22] @ goQuote_body s @ [CHR 0x22]"

definition fixer0 :: fixer where
  "fixer0 = \<lparr>mode = ''run'', verbose = False, Fixed = Map.empty\<rparr>"

text \<open>
  \<open>invalid_hex.go\<close> of the repository's test of \<open>findRangeToFix\<close>, and its tree: an
  import declaration and \<open>func main\<close> with the one statement \<open>fmt.Println(0xg)\<close>. The
  parser's first error is at offset 55, the start of the literal. Positions are offsets
  plus the base 1.
\<close>

definition invalid_hex_src :: string where
  "invalid_hex_src = ''package main'' @ [NL, NL] @ ''import '' @ [DQ] @ ''fmt'' @ [DQ, NL, NL]
     @ ''func main() {'' @ [NL, TAB] @ ''fmt.Println(0xg)'' @ [NL] @ ''}'' @ [NL]"

definition invalid_hex_file :: ast_file where
  "invalid_hex_file =
     \<lparr>FileStart = 1, Package = 1, Doc = None, Name = Ident 9 ''main'',
      Decls =
        [GenDecl 15 27 IMPORT None [ImportSpec None None (22, [DQ] @ ''fmt'' @ [DQ]) None 0],
         FuncDecl None None (Ident 34 ''main'') (Other 29 40 [None, Some (Other 38 40 []), None])
           (Some (41,
              [Stmt 44 60
                 [Some (Other 44 60
                    [Some (Other 44 55 [Some (Ident 44 ''fmt''), Some (Ident 48 ''Println'')]),
                     Some (BasicLit 56 ''0x'')])]],
              61))]\<rparr>"

definition hex_msg :: string where
  "hex_msg = ''hexadecimal literal has no digits''"

text \<open>
  A function with a result and an empty body: \<open>func f() int {}\<close>. The file parses; the
  type checker reports \<open>missing return\<close> at the closing brace, offset 24.
\<close>

definition missing_return_src :: string where
  "missing_return_src = ''package p'' @ [NL] @ ''func f() int {}'' @ [NL]"

definition missing_return_file :: ast_file where
  "missing_return_file =
     \<lparr>FileStart = 1, Package = 1, Doc = None, Name = Ident 9 ''p'',
      Decls =
        [FuncDecl None None (Ident 16 ''f'')
           (Other 11 23
              [None, Some (Other 17 19 []),
               Some (Other 20 23 [Some (Other 20 23 [Some (Ident 20 ''int'')])])])
           (Some (24, [], 25))]\<rparr>"

text \<open>
  A function literal with a result and an empty body, at the top level:
  \<open>var g = func() int {}\<close>. The file parses; the type checker reports \<open>missing return\<close>
  at the closing brace of the literal, offset 30. No function declaration encloses it.
\<close>

definition func_literal_src :: string where
  "func_literal_src = ''package p'' @ [NL] @ ''var g = func() int {}'' @ [NL]"

definition func_literal_file :: ast_file where
  "func_literal_file =
     \<lparr>FileStart = 1, Package = 1, Doc = None, Name = Ident 9 ''p'',
      Decls =
        [GenDecl 11 32 VAR None
           [Other 15 32
              [None, Some (Ident 15 ''g''), None,
               Some (Other 19 32
                  [Some (Other 19 29
                     [None, Some (Other 23 25 []),
                      Some (Other 26 29 [Some (Other 26 29 [Some (Ident 26 ''int'')])])]),
                   Some (BlockStmt 30 [] 31)]),
               None]]]\<rparr>"

text \<open>
  The same literal inside a function, followed by another statement:
  \<open>func f() { g := func() int { }; _ = g }\<close>, one statement a line. The type checker
  reports \<open>missing return\<close> at the closing brace of the literal, offset 41.
\<close>

definition nested_literal_src :: string where
  "nested_literal_src = ''package p'' @ [NL] @ ''func f() {'' @ [NL, TAB] @ ''g := func() int {''
     @ [NL, TAB] @ ''}'' @ [NL, TAB] @ ''_ = g'' @ [NL] @ ''}'' @ [NL]"

definition nested_literal_file :: ast_file where
  "nested_literal_file =
     \<lparr>FileStart = 1, Package = 1, Doc = None, Name = Ident 9 ''p'',
      Decls =
        [FuncDecl None None (Ident 16 ''f'') (Other 11 19 [None, Some (Other 17 19 []), None])
           (Some (20,
              [AssignStmt 23 43 [Ident 23 ''g''] 25 DEFINE
                 [Other 28 43
                    [Some (Other 28 38
                       [None, Some (Other 32 34 []),
                        Some (Other 35 38 [Some (Other 35 38 [Some (Ident 35 ''int'')])])]),
                     Some (BlockStmt 39 [] 42)]],
               AssignStmt 45 50 [Ident 45 ''_''] 47 ASSIGN [Ident 49 ''g'']],
              51))]\<rparr>"

text \<open>
  A file that imports \<open>fmt\<close> under the explicit name \<open>fmt\<close> and does not use it. The
  type checker reports \<open>"fmt" imported and not used\<close> at the name, offset 17.
\<close>

definition named_import_src :: string where
  "named_import_src = ''package p'' @ [NL] @ ''import fmt '' @ [DQ] @ ''fmt'' @ [DQ, NL]"

definition named_import_file :: ast_file where
  "named_import_file =
     \<lparr>FileStart = 1, Package = 1, Doc = None, Name = Ident 9 ''p'',
      Decls =
        [GenDecl 11 27 IMPORT None
           [ImportSpec None (Some (18, ''fmt'')) (22, [DQ] @ ''fmt'' @ [DQ]) None 0]]\<rparr>"

text \<open>
  \<open>noclosebrace.go\<close> of the repository's test: the string and the body of \<open>main\<close> are
  not closed, and the file ends with an empty line. The body has no valid \<open>Rbrace\<close>;
  the first parse error is at offset 39, the opening quote.
\<close>

definition noclosebrace_src :: string where
  "noclosebrace_src =
     ''package main'' @ [NL] @ ''func main() { fmt.Println('' @ [DQ] @ ''oops'' @ [NL, NL]"

definition noclosebrace_stmt :: node where
  "noclosebrace_stmt =
     Stmt 28 46
       [Some (Other 28 46
          [Some (Other 28 39 [Some (Ident 28 ''fmt''), Some (Ident 32 ''Println'')]),
           Some (BasicLit 40 ([DQ] @ ''oops''))])]"

definition noclosebrace_file :: ast_file where
  "noclosebrace_file =
     \<lparr>FileStart = 1, Package = 1, Doc = None, Name = Ident 9 ''main'',
      Decls =
        [FuncDecl None None (Ident 19 ''main'') (Other 14 25 [None, Some (Other 23 25 []), None])
           (Some (26,
[noclosebrace_stmt], 0))]\<rparr>"

text \<open>
  Collaborators for the examples: no file can be read or loaded, the parser fails, every
  build succeeds. The examples replace the fields they need.
\<close>

definition ext0 :: ext where
  "ext0 =
     \<lparr>fmtQuote = goQuote,
      parseGo = (\<lambda>filename content. (None, Some (OtherError ''no parser''))),
      osReadFile = (\<lambda>filename. Inl (GoError ''no such file'')),
      goCache = ''/home/u/.cache/go-build'',
      loadFiles = (\<lambda>m pkgNames overlay. Inr []),
      typeCheck = (\<lambda>m pkgNames files. []),
      getBrokenPackages = (\<lambda>k overlay exe ovl. (Inr [], exe, ovl))\<rparr>"




text \<open>
  A package of two files, \<open>a.go\<close> and \<open>b.go\<close>, each importing \<open>fmt\<close> without using it.
  The second file has the base 25 in the file set. The type checker reports one error
  for each file.
\<close>

definition unused_import_src :: string where
  "unused_import_src = ''package p'' @ [NL] @ ''import '' @ [DQ] @ ''fmt'' @ [DQ, NL]"

definition unused_import_file :: "pos \<Rightarrow> ast_file" where
  "unused_import_file base =
     \<lparr>FileStart = base, Package = base, Doc = None, Name = Ident (base + 8) ''p'',
      Decls =
        [GenDecl (base + 10) (base + 22) IMPORT None
           [ImportSpec None None (base + 17, [DQ] @ ''fmt'' @ [DQ]) None 0]]\<rparr>"




definition ext_two :: ext where
  "ext_two = ext0\<lparr>osReadFile := (\<lambda>filename.
       if filename = ''/src/p/a.go'' \<or> filename = ''/src/p/b.go'' then Inr unused_import_src
       else Inl (GoError ''no such file''))\<rparr>"

text \<open>
  A loader for that package: it reads the two files under the overlay, every parse
  succeeds with the tree of the file, and the type checker answers the given packages.
\<close>

definition ext_pkg :: "package list \<Rightarrow> ext" where
  "ext_pkg pkgs =
     ext_two
       \<lparr>parseGo := (\<lambda>filename content.
          (Some (unused_import_file (if filename = ''/src/p/a.go'' then 1 else 25)), None)),
        loadFiles := (\<lambda>m pkgNames overlay.
          Inr (map (\<lambda>filename.
                      (filename,
                       case overlay filename of Some c \<Rightarrow> c | None \<Rightarrow> unused_import_src))
                 [''/src/p/a.go'', ''/src/p/b.go''])),
        typeCheck := (\<lambda>m pkgNames files. pkgs)\<rparr>"

definition two_srcs :: "(string \<times> string) list" where
  "two_srcs = [(''/src/p/a.go'', unused_import_src), (''/src/p/b.go'', unused_import_src)]"

definition clean_pkg :: package where
  "clean_pkg = \<lparr>Syntax = [unused_import_file 1, unused_import_file 25], TypeErrors = []\<rparr>"




text \<open>
  A build that reports the same broken unit every time, whatever the overlay, and a
  runner for \<open>golo run .\<close>.
\<close>

definition ext_stuck :: ext where
  "ext_stuck =
     (ext_pkg [clean_pkg])
       \<lparr>getBrokenPackages := (\<lambda>k overlay exe ovl. (Inr [''example.com/p''], ''/tmp/golo-1'', ovl))\<rparr>"

definition runner0 :: runner where
  "runner0 =
     \<lparr>rmode = ''run'', rverbose = False, buildArgs = [''.''], runArgs = [], built = False,
      rfixed = Map.empty, overlayFile = [], exeFile = []\<rparr>"

definition runner1 :: runner where
  "runner1 = runner0\<lparr>exeFile := ''/tmp/golo-1''\<rparr>"

text \<open>
  A body with two calls before the broken statement:
  \<open>func main() { a(); b(); c(0xg) }\<close>, one statement a line; the first parse error is
  at offset 41.
\<close>

definition siblings_src :: string where
  "siblings_src = ''package main'' @ [NL, NL] @ ''func main() {'' @ [NL, TAB] @ ''a()''
     @ [NL, TAB] @ ''b()'' @ [NL, TAB] @ ''c(0xg)'' @ [NL] @ ''}'' @ [NL]"

definition siblings_broken :: node where
  "siblings_broken = Stmt 40 46 [Some (Other 40 46 [Some (Ident 40 ''c''), Some (BasicLit 42 ''0x'')])]"

definition siblings_before :: "node list" where
  "siblings_before =
     [Stmt 30 33 [Some (Other 30 33 [Some (Ident 30 ''a'')])],
      Stmt 35 38 [Some (Other 35 38 [Some (Ident 35 ''b'')])]]"

definition siblings_file :: ast_file where
  "siblings_file =
     \<lparr>FileStart = 1, Package = 1, Doc = None, Name = Ident 9 ''main'',
      Decls =
        [FuncDecl None None (Ident 20 ''main'') (Other 15 26 [None, Some (Other 24 26 []), None])
           (Some (27, siblings_before @ siblings_broken # [], 47))]\<rparr>"

section \<open>Helper lemmas\<close>

lemma slice_Inr:
  "slice s i j = Inr r \<Longrightarrow>
     0 \<le> i \<and> i \<le> j \<and> j \<le> int (length s) \<and> r = take (nat j - nat i) (drop (nat i) s)"
  by (auto simp: slice_def split: if_splits)

lemma newLines_fold:
  "fold (\<lambda>b n. if b = NL \<or> b = CR then n @ [b] else n) s acc
     = acc @ filter (\<lambda>b. b = NL \<or> b = CR) s"
  by (induction s arbitrary: acc) simp_all

lemma newLinesInRange_filter: "newLinesInRange s = filter (\<lambda>b. b = NL \<or> b = CR) s"
  by (simp add: newLinesInRange_def newLines_fold)

definition patched :: "fixer \<Rightarrow> string \<Rightarrow> bool \<times> fixer \<Rightarrow> bool" where
  "patched f filename r =
     (if fst r then (\<exists>new. snd r = f\<lparr>Fixed := (Fixed f)(filename \<mapsto> new)\<rparr>) else snd r = f)"

lemma patched_update: "patched f filename (update f filename cs)"
  by (auto simp: patched_def update_def)

lemma patched_False: "patched f filename (False, f)"
  by (simp add: patched_def)

lemma fixUnusedImport_patched:
  "fixUnusedImport f file filename content offset = Inr r \<Longrightarrow> patched f filename r"
  unfolding fixUnusedImport_def Let_def
  by (auto simp: patched_update patched_False
      split: option.splits node.splits if_splits sum.splits prod.splits)

lemma fixUnusedVar_patched:
  "fixUnusedVar f file filename content offset = Inr r \<Longrightarrow> patched f filename r"
  unfolding fixUnusedVar_def Let_def
  by (auto simp: patched_update patched_False split: option.splits if_splits sum.splits prod.splits)

lemma fixUselessAssignment_patched:
  "fixUselessAssignment f file filename content offset = Inr r \<Longrightarrow> patched f filename r"
  unfolding fixUselessAssignment_def Let_def
  by (auto simp: patched_update patched_False split: option.splits if_splits sum.splits prod.splits)

lemma fixError_patched:
  "fixError quote f file filename content offset msg = Inr r \<Longrightarrow> patched f filename r"
  unfolding fixError_def Let_def
  by (auto simp: patched_update patched_False
      dest: fixUnusedImport_patched fixUnusedVar_patched fixUselessAssignment_patched
      split: if_splits sum.splits prod.splits)

lemma invalid_hex_fixError:
  "(case fixError goQuote fixer0 (Some invalid_hex_file) ''main.go'' invalid_hex_src 55 hex_msg of
      Inl e \<Rightarrow> False
    | Inr (fixed, f') \<Rightarrow>
        fixed \<and> Fixed f' ''main.go'' =
          Some (''package main'' @ [NL, NL] @ ''import '' @ [DQ] @ ''fmt'' @ [DQ, NL, NL]
             @ ''func main() {'' @ [NL, TAB]
             @ ''panic('' @ [DQ] @ ''hexadecimal literal has no digits'' @ [DQ] @ '')''
             @ [NL] @ ''}'' @ [NL]))"
  by code_simp

lemma invalid_hex_fixError_ex:
  "\<exists>f'. fixError goQuote fixer0 (Some invalid_hex_file) ''main.go'' invalid_hex_src 55 hex_msg
          = Inr (True, f')"
  using invalid_hex_fixError
  by (cases "fixError goQuote fixer0 (Some invalid_hex_file) ''main.go'' invalid_hex_src 55 hex_msg")
     auto

definition lineBreaks :: "string \<Rightarrow> nat" where
  "lineBreaks s = length (filter (\<lambda>b. b = NL \<or> b = CR) s)"

lemma lineBreaks_newLinesInRange: "lineBreaks (newLinesInRange s) = lineBreaks s"
  by (simp add: lineBreaks_def newLinesInRange_filter)

lemma indexFwd_range:
  "indexFwd w i cs = r \<Longrightarrow> r = - 1 \<or> (i \<le> r \<and> r < i + int (length cs))"
proof (induction cs arbitrary: w i)
  case Nil
  then show ?case by simp
next
  case (Cons c cs)
  show ?case
  proof (cases "c \<in> set ''}fvct/''")
    case special: True
    show ?thesis
    proof (cases w)
      case True
      with special Cons.prems show ?thesis by simp
    next
      case False
      with special Cons.prems have "indexFwd w (i + 1) cs = r" by simp
      from Cons.IH [OF this] show ?thesis by auto
    qed
  next
    case False
    with Cons.prems have "indexFwd (c = NL \<or> c = CR) (i + 1) cs = r" by simp
    from Cons.IH [OF this] show ?thesis by auto
  qed
qed




lemma parseAll_valid:
  "list_all (\<lambda>(filename, content). snd (parseGo x filename content) = None) srcs \<Longrightarrow>
   parseAll x f srcs
     = Inr (map (\<lambda>(filename, content). (filename, parseGo x filename content)) srcs, f)"
proof (induction srcs)
  case Nil
  then show ?case by simp
next
  case (Cons s srcs)
  obtain filename content where s: "s = (filename, content)" by (cases s)
  obtain tree err where p: "parseGo x filename content = (tree, err)"
    by (cases "parseGo x filename content")
  with Cons.prems s have "err = None" by simp
  with p have "parseFile x f filename content = (Inr (tree, None), f, 1)"
    by (simp add: parseFile_def parseFile_loop.simps [of x f filename content 0])
  with Cons s p \<open>err = None\<close> show ?case by simp
qed

lemma fixPkgs_no_errors:
  "list_all (\<lambda>pkg. TypeErrors pkg = []) pkgs \<Longrightarrow> fixPkgs x f pkgs fixed = Inr (Inr fixed, f)"
  by (induction pkgs) (simp_all add: fixPkg_def)

lemma ext_pkg_loadFiles:
  "loadFiles (ext_pkg pkgs) (mode fixer0) pkgNames (Fixed fixer0) = Inr two_srcs"
  by (simp add: ext_pkg_def fixer0_def two_srcs_def)

lemma ext_pkg_parses:
  "list_all (\<lambda>(filename, content). snd (parseGo (ext_pkg pkgs) filename content) = None) two_srcs"
  by (simp add: ext_pkg_def two_srcs_def)

lemma ext_pkg_typeCheck: "typeCheck (ext_pkg pkgs) m pkgNames files = pkgs"
  by (simp add: ext_pkg_def)








lemma markFixed_Some:
  "markFixed fixed clidx i l = Some (fixed', clidx') \<Longrightarrow> fixed' = fixed \<union> set l \<and> set l \<inter> fixed = {}"
proof (induction l arbitrary: fixed clidx i)
  case Nil
  then show ?case by simp
next
  case (Cons pkg rest)
  from Cons.prems have fresh: "pkg \<notin> fixed" by (auto split: if_splits)
  with Cons.prems have
    "markFixed (insert pkg fixed) (if pkg = ''command-line-arguments'' then int i else clidx)
       (Suc i) rest = Some (fixed', clidx')"
    by simp
  from Cons.IH [OF this] fresh show ?case by auto
qed

lemma markFixed_None: "set l \<inter> fixed \<noteq> {} \<Longrightarrow> markFixed fixed clidx i l = None"
proof (induction l arbitrary: fixed clidx i)
  case Nil
  then show ?case by simp
next
  case (Cons pkg rest)
  show ?case
  proof (cases "pkg \<in> fixed")
    case True
    then show ?thesis by simp
  next
    case False
    with Cons.prems have "set rest \<inter> insert pkg fixed \<noteq> {}" by auto
    from Cons.IH [OF this] False show ?thesis by simp
  qed
qed

lemma Prepare_loop_returns:
  assumes fin: "finite U"
    and reports: "\<And>k overlay exe ovl l. fst (getBrokenPackages x k overlay exe ovl) = Inr l \<Longrightarrow> set l \<subseteq> U"
  shows "\<exists>res. Prepare_loop x r fixer fixed k = Some res"
proof (induction "card (U - fixed)" arbitrary: r fixer fixed k rule: less_induct)
  case less
  obtain res exe ovl where g: "getBrokenPackages x k (Fixed fixer) (exeFile r) (overlayFile r) = (res, exe, ovl)"
    by (cases "getBrokenPackages x k (Fixed fixer) (exeFile r) (overlayFile r)")
  let ?r = "r\<lparr>rfixed := Fixed fixer, exeFile := exe, overlayFile := ovl\<rparr>"
  show ?case
  proof (cases res)
    case (Inl err)
    with g show ?thesis by (subst Prepare_loop.simps) simp
  next
    case (Inr toFix)
    show ?thesis
    proof (cases "toFix = []")
      case True
      with g Inr show ?thesis by (subst Prepare_loop.simps) simp
    next
      case nonempty: False
      show ?thesis
      proof (cases "markFixed fixed (- 1) 0 toFix")
        case None
        with g Inr nonempty show ?thesis by (subst Prepare_loop.simps) simp
      next
        case (Some m)
        obtain fixed' clidx where m: "m = (fixed', clidx)" by (cases m)
        from markFixed_Some [OF Some [unfolded m]]
        have grow: "fixed' = fixed \<union> set toFix" "set toFix \<inter> fixed = {}" by auto
        from reports [of k "Fixed fixer" "exeFile r" "overlayFile r" toFix] g Inr
        have "set toFix \<subseteq> U" by simp
        with grow nonempty obtain a where "a \<in> U - fixed" "a \<notin> U - fixed'"
          by (cases toFix) auto
        moreover from grow have "U - fixed' \<subseteq> U - fixed" by auto
        ultimately have "U - fixed' \<subset> U - fixed" by auto
        with fin have smaller: "card (U - fixed') < card (U - fixed)"
          by (simp add: psubset_card_mono)
        obtain e1 fixer1 n where
          f1: "(if clidx > - 1 then Fix x fixer (buildArgs ?r) else (Inr None, fixer, 0))
                 = (e1, fixer1, n)"
          by (metis prod_cases3)
        show ?thesis
        proof (cases e1)
          case (Inl p)
          with g Inr nonempty Some m f1 show ?thesis
            by (subst Prepare_loop.simps) (simp add: Let_def)
        next
          case r1: (Inr err1)
          show ?thesis
          proof (cases err1)
            case (Some err)
            with g Inr nonempty \<open>markFixed fixed (- 1) 0 toFix = Some m\<close> m f1 r1 show ?thesis
              by (subst Prepare_loop.simps) (simp add: Let_def)
          next
            case None
            obtain e2 fixer2 n2 where
              f2: "Fix x fixer1
                     (if clidx > - 1 then take (nat clidx) toFix @ drop (nat clidx + 1) toFix
                      else toFix) = (e2, fixer2, n2)"
              by (metis prod_cases3)
            show ?thesis
            proof (cases e2)
              case (Inl p)
              with g Inr nonempty \<open>markFixed fixed (- 1) 0 toFix = Some m\<close> m f1 r1 None f2
              show ?thesis
                by (subst Prepare_loop.simps) (simp add: Let_def)
            next
              case r2: (Inr err2)
              show ?thesis
              proof (cases err2)
                case (Some err)
                with g Inr nonempty \<open>markFixed fixed (- 1) 0 toFix = Some m\<close> m f1 r1 None f2 r2
                show ?thesis
                  by (subst Prepare_loop.simps) (simp add: Let_def)
              next
                case n2: None
                from less [OF smaller, of ?r fixer2 "Suc k"]
                obtain res' where "Prepare_loop x ?r fixer2 fixed' (Suc k) = Some res'" by blast
                with g Inr nonempty \<open>markFixed fixed (- 1) 0 toFix = Some m\<close> m f1 r1 None f2 r2 n2
                show ?thesis
                  by (subst Prepare_loop.simps) (simp add: Let_def)
              qed
            qed
          qed
        qed
      qed
    qed
  qed
qed


lemma Prepare_loop_gives_up:
  assumes "getBrokenPackages x k (Fixed fixer) (exeFile r0) (overlayFile r0) = (Inr toFix, exe, ovl)"
    and "set toFix \<inter> fixed \<noteq> {}"
  shows "Prepare_loop x r0 fixer fixed k
           = Some (Inr (None, r0\<lparr>rfixed := Fixed fixer, exeFile := exe, overlayFile := ovl\<rparr>))"
proof -
  from assms(2) have "toFix \<noteq> []" by auto
  with assms markFixed_None [OF assms(2), of "- 1" 0] show ?thesis
    by (subst Prepare_loop.simps) simp
qed

lemma ext_stuck_Load: "Load ext_stuck fixer0 pkgNames = Inr (Inr [clean_pkg], fixer0)"
proof -
  have l: "loadFiles ext_stuck (mode fixer0) pkgNames (Fixed fixer0) = Inr two_srcs"
    by (simp add: ext_stuck_def ext_pkg_loadFiles)
  have p: "list_all (\<lambda>(filename, content). snd (parseGo ext_stuck filename content) = None) two_srcs"
    by (simp add: ext_stuck_def ext_pkg_parses)
  have t: "typeCheck ext_stuck m pkgNames files = [clean_pkg]" for m files
    by (simp add: ext_stuck_def ext_pkg_typeCheck)
  show ?thesis
    by (simp add: Load_def l parseAll_valid [OF p] t)
qed

lemma ext_stuck_Fix: "Fix ext_stuck fixer0 pkgNames = (Inr None, fixer0, 1)"
proof -
  have "fixPkgs ext_stuck fixer0 [clean_pkg] False = Inr (Inr False, fixer0)"
    by (rule fixPkgs_no_errors) (simp add: clean_pkg_def)
  then show ?thesis
    by (simp add: Fix_def Fix_loop.simps [of _ _ _ 0] ext_stuck_Load)
qed

lemma stuck_Prepare: "Prepare ext_stuck runner0 = Some (Inr (None, runner1))"
proof -
  have g: "getBrokenPackages ext_stuck k overlay exe ovl = (Inr [''example.com/p''], ''/tmp/golo-1'', ovl)"
    for k overlay exe ovl
    by (simp add: ext_stuck_def)
  have second: "Prepare_loop ext_stuck runner1 fixer0 {''example.com/p''} (Suc 0)
                  = Some (Inr (None, runner1))"
    by (subst Prepare_loop.simps) (simp add: g runner1_def runner0_def fixer0_def)
  have f0: "\<lparr>mode = rmode runner0, verbose = rverbose runner0, Fixed = rfixed runner0\<rparr> = fixer0"
    by (simp add: runner0_def fixer0_def)
  have r1: "runner0\<lparr>rfixed := Fixed fixer0, exeFile := ''/tmp/golo-1'', overlayFile := overlayFile runner0\<rparr>
              = runner1"
    by (simp add: runner1_def runner0_def fixer0_def)
  show ?thesis
    unfolding Prepare_def f0
    by (subst Prepare_loop.simps) (simp add: g ext_stuck_Fix r1 second)
qed

subsection \<open>The walk of findEnclosing over a function body\<close>

text \<open>
  A subtree is quiet for a position when the walk of \<open>findEnclosing\<close> passes through it
  without changing the block or the function body and without a panic: below the nodes
  that start at or before the position, every block and every function body has a
  valid closing brace and ends before the position, and every function has a body.
\<close>

fun quiet :: "pos \<Rightarrow> node \<Rightarrow> bool" where
  "quiet pos (Ident p s) = True"
| "quiet pos (BasicLit p s) = True"
| "quiet pos (ImportSpec d nm pth c e) =
     ((case d of None \<Rightarrow> True | Some x \<Rightarrow> quiet pos x)
      \<and> (case c of None \<Rightarrow> True | Some x \<Rightarrow> quiet pos x))"
| "quiet pos (GenDecl p e t d specs) =
     ((case d of None \<Rightarrow> True | Some x \<Rightarrow> quiet pos x) \<and> list_all (quiet pos) specs)"
| "quiet pos (FuncDecl d r n t b) =
     (if Pos t > pos then True
      else
        (case b of
           None \<Rightarrow> False
         | Some (lb, l, rb) \<Rightarrow>
             IsValid rb \<and> rb + 1 < pos
             \<and> (case d of None \<Rightarrow> True | Some x \<Rightarrow> quiet pos x)
             \<and> (case r of None \<Rightarrow> True | Some x \<Rightarrow> quiet pos x)
             \<and> quiet pos n \<and> quiet pos t \<and> list_all (quiet pos) l))"
| "quiet pos (BlockStmt lb l rb) =
     (if lb > pos then True else IsValid rb \<and> rb + 1 < pos \<and> list_all (quiet pos) l)"
| "quiet pos (AssignStmt p e lhs tp t rhs) =
     (list_all (quiet pos) lhs \<and> list_all (quiet pos) rhs)"
| "quiet pos (Stmt p e kids) =
     list_all (\<lambda>k. case k of None \<Rightarrow> True | Some x \<Rightarrow> quiet pos x) kids"
| "quiet pos (Other p e kids) =
     list_all (\<lambda>k. case k of None \<Rightarrow> True | Some x \<Rightarrow> quiet pos x) kids"

fun quietO :: "pos \<Rightarrow> node option \<Rightarrow> bool" where
  "quietO pos None = True"
| "quietO pos (Some n) = quiet pos n"

lemma quietO_alt: "(case k of None \<Rightarrow> True | Some x \<Rightarrow> quiet pos x) = quietO pos k"
  by (cases k) simp_all

lemma quiet_children:
  "quiet pos n \<Longrightarrow> Pos n \<le> pos \<Longrightarrow> list_all (quietO pos) (children n)"
  by (cases n)
     (auto simp: quietO_alt list_all_iff split: option.splits if_splits)


definition notBlock :: "node \<Rightarrow> bool" where
  "notBlock n = (case n of BlockStmt lb l rb \<Rightarrow> False | _ \<Rightarrow> True)"

definition visitStmt :: "pos \<Rightarrow> path option \<Rightarrow> path \<Rightarrow> node \<Rightarrow> enclosing \<Rightarrow> enclosing" where
  "visitStmt pos par p n s =
     (if Pos n \<le> pos \<and> isStmt n \<and> notBlock n
         \<and> (case block s of None \<Rightarrow> False | Some (bp, b) \<Rightarrow> par = Some bp)
      then s\<lparr>stmt := Some (p, n)\<rparr> else s)"

definition blockAway :: "enclosing \<Rightarrow> path \<Rightarrow> bool" where
  "blockAway s p = (case block s of None \<Rightarrow> True | Some (bp, b) \<Rightarrow> \<not> prefix p bp)"

lemma visitStmt_block [simp]: "block (visitStmt pos par p n s) = block s"
  by (simp add: visitStmt_def)

lemma visitStmt_away: "blockAway s p \<Longrightarrow> visitStmt pos (Some p) q n s = s"
  by (auto simp: visitStmt_def blockAway_def split: option.splits)

lemma blockAway_child: "blockAway s p \<Longrightarrow> blockAway s (p @ [i])"
  by (auto simp: blockAway_def split: option.splits dest: append_prefixD)

lemma pre_quiet:
  "quiet pos n \<Longrightarrow>
   findEnclosing_pre pos par p (Nd n) s = Inr (Pos n \<le> pos, visitStmt pos par p n s)"
  by (cases n)
     (auto simp: visitStmt_def notBlock_def split: option.splits if_splits)

lemma post_away:
  "blockAway s p \<Longrightarrow> findEnclosing_post par p c s = Inr (True, s)"
  by (auto simp: blockAway_def findEnclosing_post_def split: option.splits)

lemma quiet_walk_aux:
  "(\<forall>n par p s. oweight n = k \<longrightarrow> quietO pos n \<longrightarrow> blockAway s p \<longrightarrow>
      applyNode (findEnclosing_pre pos) findEnclosing_post par p n s
        = Inr (True, case n of None \<Rightarrow> s | Some m \<Rightarrow> visitStmt pos par p m s))
   \<and> (\<forall>cs p i s. Suc (sum_list (map oweight cs)) = k \<longrightarrow> list_all (quietO pos) cs
         \<longrightarrow> blockAway s p \<longrightarrow>
      applyList (findEnclosing_pre pos) findEnclosing_post p i cs s = Inr (True, s))"
proof (induction k rule: less_induct)
  case (less k)
  note IH = less.IH
  show ?case
  proof (intro conjI allI impI)
    fix n par p s
    assume k: "oweight n = k" and q: "quietO pos n" and away: "blockAway s p"
    show "applyNode (findEnclosing_pre pos) findEnclosing_post par p n s
            = Inr (True, case n of None \<Rightarrow> s | Some m \<Rightarrow> visitStmt pos par p m s)"
    proof (cases n)
      case None
      then show ?thesis by simp
    next
      case (Some m)
      with q have qm: "quiet pos m" by simp
      let ?s1 = "visitStmt pos par p m s"
      have pre: "findEnclosing_pre pos par p (Nd m) s = Inr (Pos m \<le> pos, ?s1)"
        by (rule pre_quiet [OF qm])
      show ?thesis
      proof (cases "Pos m \<le> pos")
        case False
        then have "?s1 = s" by (simp add: visitStmt_def)
        with Some pre False show ?thesis by simp
      next
        case True
        have away1: "blockAway ?s1 p" using away by (simp add: blockAway_def)
        have small: "Suc (sum_list (map oweight (children m))) < k"
          using weight_childrenOf [of "Some m"] k Some by simp
        from IH [OF small] quiet_children [OF qm True] away1
        have kids: "applyList (findEnclosing_pre pos) findEnclosing_post p 0 (children m) ?s1
                      = Inr (True, ?s1)"
          by blast
        from Some pre True kids post_away [OF away1] show ?thesis by simp
      qed
    qed
  next
    fix cs p i s
    assume k: "Suc (sum_list (map oweight cs)) = k" and q: "list_all (quietO pos) cs"
      and away: "blockAway s p"
    show "applyList (findEnclosing_pre pos) findEnclosing_post p i cs s = Inr (True, s)"
    proof (cases cs)
      case Nil
      then show ?thesis by simp
    next
      case (Cons c rest)
      from k Cons have c: "oweight c < k" by simp
      from k Cons oweight_pos [of c] have r: "Suc (sum_list (map oweight rest)) < k" by simp
      from q Cons have qc: "quietO pos c" and qr: "list_all (quietO pos) rest" by simp_all
      from IH [OF c] qc blockAway_child [OF away]
      have "applyNode (findEnclosing_pre pos) findEnclosing_post (Some p) (p @ [i]) c s
              = Inr (True, case c of None \<Rightarrow> s | Some m \<Rightarrow> visitStmt pos (Some p) (p @ [i]) m s)"
        by blast
      then have head: "applyNode (findEnclosing_pre pos) findEnclosing_post (Some p) (p @ [i]) c s
              = Inr (True, s)"
        using visitStmt_away [OF away] by (cases c) simp_all
      from IH [OF r] qr away
      have "applyList (findEnclosing_pre pos) findEnclosing_post p (Suc i) rest s = Inr (True, s)"
        by blast
      with Cons head show ?thesis by simp
    qed
  qed
qed

lemma quiet_walk:
  "quietO pos n \<Longrightarrow> blockAway s p \<Longrightarrow>
   applyNode (findEnclosing_pre pos) findEnclosing_post par p n s
     = Inr (True, case n of None \<Rightarrow> s | Some m \<Rightarrow> visitStmt pos par p m s)"
  using quiet_walk_aux [of "oweight n" pos] by blast

lemma quiet_walk_list:
  "list_all (quietO pos) cs \<Longrightarrow> blockAway s p \<Longrightarrow>
   applyList (findEnclosing_pre pos) findEnclosing_post p i cs s = Inr (True, s)"
  using quiet_walk_aux [of "Suc (sum_list (map oweight cs))" pos] by blast


lemma applyList_append:
  "applyList pre post p i (xs @ ys) s =
     (case applyList pre post p i xs s of
        Inl e \<Rightarrow> Inl e
      | Inr (go, s1) \<Rightarrow>
          if go then applyList pre post p (i + length xs) ys s1 else Inr (False, s1))"
proof (induction xs arbitrary: i s)
  case Nil
  then show ?case by simp
next
  case (Cons x xs)
  show ?case
  proof (cases "applyNode pre post (Some p) (p @ [i]) x s")
    case (Inl e)
    then show ?thesis by simp
  next
    case (Inr r)
    obtain go s1 where r: "r = (go, s1)" by (cases r)
    have e: "i + length (x # xs) = Suc i + length xs" by simp
    show ?thesis
      unfolding e using Inr r Cons.IH [of "Suc i" s1]
      by (simp del: applyNode.simps)
  qed
qed

lemma visitStmt_shape: "\<exists>st. visitStmt pos par p n s = s\<lparr>stmt := st\<rparr>"
proof (cases "visitStmt pos par p n s = s")
  case True
  then have "visitStmt pos par p n s = s\<lparr>stmt := stmt s\<rparr>" by simp
  then show ?thesis by (rule exI)
next
  case False
  then have "visitStmt pos par p n s = s\<lparr>stmt := Some (p, n)\<rparr>"
    by (simp add: visitStmt_def split: if_splits)
  then show ?thesis by (rule exI)
qed

text \<open>The statements of the located block that come before the broken one.\<close>

lemma walk_before:
  "block s = Some (bp, b) \<Longrightarrow> list_all (quiet pos) xs \<Longrightarrow>
   \<exists>st. applyList (findEnclosing_pre pos) findEnclosing_post bp i (map Some xs) s
          = Inr (True, s\<lparr>stmt := st\<rparr>)"
proof (induction xs arbitrary: i s)
  case Nil
  show ?case by (rule exI [of _ "stmt s"]) simp
next
  case (Cons x xs)
  have away: "blockAway s (bp @ [i])"
    using Cons.prems(1) by (simp add: blockAway_def)
  from Cons.prems(2) have "quietO pos (Some x)" by simp
  from quiet_walk [OF this away, of "Some bp"]
  have head: "applyNode (findEnclosing_pre pos) findEnclosing_post (Some bp) (bp @ [i]) (Some x) s
                = Inr (True, visitStmt pos (Some bp) (bp @ [i]) x s)"
    by simp
  obtain st1 where s1: "visitStmt pos (Some bp) (bp @ [i]) x s = s\<lparr>stmt := st1\<rparr>"
    using visitStmt_shape by blast
  from Cons.prems have "block (s\<lparr>stmt := st1\<rparr>) = Some (bp, b)" "list_all (quiet pos) xs"
    by simp_all
  from Cons.IH [OF this, of "Suc i"] obtain st where
    "applyList (findEnclosing_pre pos) findEnclosing_post bp (Suc i) (map Some xs) (s\<lparr>stmt := st1\<rparr>)
       = Inr (True, s\<lparr>stmt := st1\<rparr>\<lparr>stmt := st\<rparr>)"
    by blast
  with head s1 show ?case by (auto simp del: applyNode.simps)
qed

text \<open>The statements that start after the position: \<open>pre\<close> returns false at each.\<close>

lemma walk_after:
  "list_all (\<lambda>n. pos < Pos n) xs \<Longrightarrow>
   applyList (findEnclosing_pre pos) findEnclosing_post p i (map Some xs) s = Inr (True, s)"
proof (induction xs arbitrary: i)
  case Nil
  then show ?case by simp
next
  case (Cons x xs)
  from Cons.prems have "findEnclosing_pre pos (Some p) (p @ [i]) (Nd x) s = Inr (False, s)"
    by simp
  then have "applyNode (findEnclosing_pre pos) findEnclosing_post (Some p) (p @ [i]) (Some x) s
               = Inr (True, s)"
    by simp
  with Cons show ?case by (simp del: applyNode.simps)
qed


lemma walk_block:
  assumes span: "lb \<le> pos" "pos \<le> rb + 1" "IsValid rb"
    and before: "list_all (quiet pos) before"
    and broken: "quiet pos s0" "isStmt s0" "notBlock s0" "Pos s0 \<le> pos"
    and after: "list_all (\<lambda>n. pos < Pos n) after"
  shows "applyNode (findEnclosing_pre pos) findEnclosing_post par bp
           (Some (BlockStmt lb (before @ s0 # after) rb)) s
         = Inr (False, s\<lparr>block := Some (bp, lb, before @ s0 # after, rb),
                          stmt := Some (bp @ [length before], s0)\<rparr>)"
proof -
  let ?l = "before @ s0 # after"
  let ?s1 = "s\<lparr>block := Some (bp, lb, ?l, rb)\<rparr>"
  have pre: "findEnclosing_pre pos par bp (Nd (BlockStmt lb ?l rb)) s = Inr (True, ?s1)"
    using span by simp
  have b1: "block ?s1 = Some (bp, lb, ?l, rb)" by simp
  from walk_before [OF b1 before, of 0] obtain st where
    w1: "applyList (findEnclosing_pre pos) findEnclosing_post bp 0 (map Some before) ?s1
           = Inr (True, ?s1\<lparr>stmt := st\<rparr>)"
    by blast
  let ?s2 = "?s1\<lparr>stmt := st\<rparr>"
  let ?n = "length before"
  have away: "blockAway ?s2 (bp @ [?n])" by (simp add: blockAway_def)
  from broken(1) have "quietO pos (Some s0)" by simp
  from quiet_walk [OF this away, of "Some bp"]
  have "applyNode (findEnclosing_pre pos) findEnclosing_post (Some bp) (bp @ [?n]) (Some s0) ?s2
          = Inr (True, visitStmt pos (Some bp) (bp @ [?n]) s0 ?s2)"
    by simp
  moreover have "visitStmt pos (Some bp) (bp @ [?n]) s0 ?s2 = ?s1\<lparr>stmt := Some (bp @ [?n], s0)\<rparr>"
    using broken by (simp add: visitStmt_def)
  ultimately have
    w2: "applyNode (findEnclosing_pre pos) findEnclosing_post (Some bp) (bp @ [?n]) (Some s0) ?s2
          = Inr (True, ?s1\<lparr>stmt := Some (bp @ [?n], s0)\<rparr>)"
    by simp
  let ?s3 = "?s1\<lparr>stmt := Some (bp @ [?n], s0)\<rparr>"
  have w3: "applyList (findEnclosing_pre pos) findEnclosing_post bp (Suc ?n) (map Some after) ?s3
              = Inr (True, ?s3)"
    by (rule walk_after [OF after])
  have kids: "applyList (findEnclosing_pre pos) findEnclosing_post bp 0 (map Some ?l) ?s1
                = Inr (True, ?s3)"
    using w1 w2 w3 by (simp add: applyList_append del: applyNode.simps)
  have post: "findEnclosing_post par bp (Nd (BlockStmt lb ?l rb)) ?s3 = Inr (False, ?s3)"
    by (simp add: findEnclosing_post_def)
  show ?thesis
    using pre kids post by (subst applyNode.simps) simp
qed

lemma walk_func:
  assumes head: "quietO pos d" "quietO pos r" "quiet pos nm" "quiet pos t" "Pos t \<le> pos"
    and nob: "block s = None"
    and span: "lb \<le> pos" "pos \<le> rb + 1" "IsValid rb"
    and before: "list_all (quiet pos) before"
    and broken: "quiet pos s0" "isStmt s0" "notBlock s0" "Pos s0 \<le> pos"
    and after: "list_all (\<lambda>n. pos < Pos n) after"
  shows "applyNode (findEnclosing_pre pos) findEnclosing_post par p
           (Some (FuncDecl d r nm t (Some (lb, before @ s0 # after, rb)))) s
         = Inr (False, s\<lparr>fnBody := Some (p @ [4], lb, before @ s0 # after, rb),
                          block := Some (p @ [4], lb, before @ s0 # after, rb),
                          stmt := Some (p @ [4, length before], s0)\<rparr>)"
proof -
  let ?l = "before @ s0 # after"
  let ?f = "FuncDecl d r nm t (Some (lb, ?l, rb))"
  let ?s1 = "s\<lparr>fnBody := Some (p @ [4], lb, ?l, rb)\<rparr>"
  have pre: "findEnclosing_pre pos par p (Nd ?f) s = Inr (True, ?s1)"
    using head(5) span by simp
  have away: "blockAway ?s1 p" using nob by (simp add: blockAway_def)
  define hs where "hs = [d, r, Some nm, Some t]"
  have len: "length hs = 4" by (simp add: hs_def)
  have "list_all (quietO pos) hs" using head by (simp add: hs_def)
  from quiet_walk_list [OF this away, of 0]
  have w1: "applyList (findEnclosing_pre pos) findEnclosing_post p 0 hs ?s1 = Inr (True, ?s1)" .
  from walk_block [OF span before broken after, of "Some p" "p @ [4]" ?s1]
  have w2: "applyNode (findEnclosing_pre pos) findEnclosing_post (Some p) (p @ [length hs])
              (Some (BlockStmt lb ?l rb)) ?s1
            = Inr (False, ?s1\<lparr>block := Some (p @ [4], lb, ?l, rb),
                               stmt := Some (p @ [4, length before], s0)\<rparr>)"
    by (simp add: len)
  have w3: "applyList (findEnclosing_pre pos) findEnclosing_post p (length hs)
              [Some (BlockStmt lb ?l rb)] ?s1
            = Inr (False, ?s1\<lparr>block := Some (p @ [4], lb, ?l, rb),
                               stmt := Some (p @ [4, length before], s0)\<rparr>)"
    using w2 by (simp del: applyNode.simps)
  have ch: "children ?f = hs @ [Some (BlockStmt lb ?l rb)]" by (simp add: hs_def)
  have kids: "applyList (findEnclosing_pre pos) findEnclosing_post p 0 (children ?f) ?s1
            = Inr (False, ?s1\<lparr>block := Some (p @ [4], lb, ?l, rb),
                               stmt := Some (p @ [4, length before], s0)\<rparr>)"
    unfolding ch using w1 w3
    by (simp add: applyList_append del: applyNode.simps applyList.simps)
  show ?thesis
    using pre kids by (subst applyNode.simps) (simp del: children.simps)
qed

lemma findEnclosing_siblings:
  assumes decls: "Decls file = dsb @ FuncDecl d r nm t (Some (lb, before @ s0 # after, rb)) # dsa"
    and top: "Package file \<le> pos" "quietO pos (Doc file)" "quiet pos (Name file)"
      "list_all (quiet pos) dsb"
    and head: "quietO pos d" "quietO pos r" "quiet pos nm" "quiet pos t" "Pos t \<le> pos"
    and span: "lb \<le> pos" "pos \<le> rb + 1" "IsValid rb"
    and before: "list_all (quiet pos) before"
    and broken: "quiet pos s0" "isStmt s0" "notBlock s0" "Pos s0 \<le> pos"
    and after: "list_all (\<lambda>n. pos < Pos n) after"
  shows "findEnclosing file pos =
           Inr \<lparr>stmt = Some ([2 + length dsb, 4, length before], s0),
                 block = Some ([2 + length dsb, 4], lb, before @ s0 # after, rb),
                 fnBody = Some ([2 + length dsb, 4], lb, before @ s0 # after, rb)\<rparr>"
proof -
  let ?s = "\<lparr>stmt = None, block = None, fnBody = None\<rparr>"
  let ?f = "FuncDecl d r nm t (Some (lb, before @ s0 # after, rb))"
  define xs where "xs = Doc file # Some (Name file) # map Some dsb"
  have len: "length xs = 2 + length dsb" by (simp add: xs_def)
  have pre: "findEnclosing_pre pos None [] (TheFile file) ?s = Inr (True, ?s)"
    using top(1) by simp
  have away: "blockAway ?s []" by (simp add: blockAway_def)
  have "list_all (quietO pos) xs" using top by (simp add: list_all_iff xs_def)
  from quiet_walk_list [OF this away, of 0]
  have w1: "applyList (findEnclosing_pre pos) findEnclosing_post [] 0 xs ?s = Inr (True, ?s)" .
  have nob: "block ?s = None" by simp
  from walk_func [OF head nob span before broken after, of "Some []" "[2 + length dsb]"]
  have w2: "applyNode (findEnclosing_pre pos) findEnclosing_post (Some []) ([] @ [length xs])
              (Some ?f) ?s
            = Inr (False, \<lparr>stmt = Some ([2 + length dsb, 4, length before], s0),
                 block = Some ([2 + length dsb, 4], lb, before @ s0 # after, rb),
                 fnBody = Some ([2 + length dsb, 4], lb, before @ s0 # after, rb)\<rparr>)"
    by (simp add: len)
  have w3: "applyList (findEnclosing_pre pos) findEnclosing_post [] (length xs)
              (Some ?f # map Some dsa) ?s
            = Inr (False, \<lparr>stmt = Some ([2 + length dsb, 4, length before], s0),
                 block = Some ([2 + length dsb, 4], lb, before @ s0 # after, rb),
                 fnBody = Some ([2 + length dsb, 4], lb, before @ s0 # after, rb)\<rparr>)"
    using w2 by (simp del: applyNode.simps)
  have split: "Doc file # Some (Name file) # map Some (Decls file)
                 = xs @ (Some ?f # map Some dsa)"
    using decls by (simp add: xs_def)
  have kids: "applyList (findEnclosing_pre pos) findEnclosing_post [] 0
                (Doc file # Some (Name file) # map Some (Decls file)) ?s
            = Inr (False, \<lparr>stmt = Some ([2 + length dsb, 4, length before], s0),
                 block = Some ([2 + length dsb, 4], lb, before @ s0 # after, rb),
                 fnBody = Some ([2 + length dsb, 4], lb, before @ s0 # after, rb)\<rparr>)"
    unfolding split using w1 w3
    by (simp add: applyList_append del: applyNode.simps applyList.simps)
  show ?thesis
    unfolding findEnclosing_def Apply_def using pre kids by simp
qed

lemma findRangeToFix_scan_synthesized:
  assumes "slice_from content start = Inr tail"
    and "indexFwd False 0 tail = e1"
    and "\<not> (e1 > - 1 \<and> tail ! nat e1 = CHR ''}'')"
    and "e2 = (if e1 = - 1 then int (length tail) - 1 else e1)"
    and "slice_to tail e2 = Inr scanned"
    and "lastIndexBwd False (rev scanned) = - 1"
  shows "findRangeToFix_scan content start = Inr (start, start + e2, ''}'')"
  using assms unfolding findRangeToFix_scan_def by (simp add: Let_def)

section \<open>Claims\<close>

text \<open>
  C1. A patch of the general path of \<open>fixError\<close> (the message names none of the three
  special errors, and the call returns true) replaces \<open>content[start:end]\<close> by the line
  breaks of \<open>content[start:offset]\<close>, then \<open>panic(\<close>, the quoted message and \<open>)\<close>, then the
  line breaks of \<open>content[offset:end]\<close>, then the tail of \<open>findRangeToFix\<close>. So the text that
  replaces the part before the offset has as many line breaks as that part, and likewise
  after the offset.
\<close>

theorem fixError_newline_preservation:
  assumes "\<not> sublist ''imported and not used'' msg"
    and "\<not> sublist ''declared and not used'' msg"
    and "\<not> sublist ''no new variables on left side of :='' msg"
    and "fixError quote f file filename content offset msg = Inr (True, f')"
  shows "\<exists>start end tail removedFront removedBack.
           findRangeToFix file content offset = Inr (start, end, tail)
         \<and> slice content start offset = Inr removedFront
         \<and> slice content offset end = Inr removedBack
         \<and> Fixed f' filename =
             Some (take (nat start) content
                   @ (newLinesInRange removedFront @ ''panic('' @ quote msg @ '')''
                      @ newLinesInRange removedBack)
                   @ tail @ drop (nat end) content)
         \<and> newLinesInRange removedFront = filter (\<lambda>b. b = NL \<or> b = CR) removedFront
         \<and> newLinesInRange removedBack = filter (\<lambda>b. b = NL \<or> b = CR) removedBack
         \<and> lineBreaks (newLinesInRange removedFront) = lineBreaks removedFront
         \<and> lineBreaks (newLinesInRange removedBack) = lineBreaks removedBack"
proof -
  from assms obtain start "end" tail where
    range: "findRangeToFix file content offset = Inr (start, end, tail)"
    by (auto simp: fixError_def split: sum.splits)
  from assms range obtain removedFront where
    rfront: "slice content start offset = Inr removedFront"
    by (auto simp: fixError_def split: sum.splits if_splits)
  from assms range rfront obtain removedBack where
    rback: "slice content offset end = Inr removedBack"
    by (auto simp: fixError_def split: sum.splits if_splits)
  from slice_Inr [OF rfront] slice_Inr [OF rback]
  have bounds: "0 \<le> start" "end \<le> int (length content)" "start \<le> end" by auto
  then have pre: "slice content 0 start = Inr (take (nat start) content)"
    and post: "slice_from content end = Inr (drop (nat end) content)"
    by (auto simp: slice_def slice_from_def)
  from assms range rfront rback pre post
  have "Fixed f' filename =
          Some (take (nat start) content
                @ (newLinesInRange removedFront @ ''panic('' @ quote msg @ '')''
                   @ newLinesInRange removedBack)
                @ tail @ drop (nat end) content)"
    by (auto simp: fixError_def update_def split: if_splits)
  with range rfront rback show ?thesis
    by (simp add: lineBreaks_newLinesInRange newLinesInRange_filter [symmetric])
qed

lemma hex_msg_general:
  "\<not> sublist ''imported and not used'' hex_msg"
  "\<not> sublist ''declared and not used'' hex_msg"
  "\<not> sublist ''no new variables on left side of :='' hex_msg"
  by code_simp+

theorem fixError_newline_preservation_witness:
  "\<exists>f' start end tail removedFront removedBack.
       fixError goQuote fixer0 (Some invalid_hex_file) ''main.go'' invalid_hex_src 55 hex_msg
         = Inr (True, f')
     \<and> findRangeToFix (Some invalid_hex_file) invalid_hex_src 55 = Inr (start, end, tail)
     \<and> slice invalid_hex_src start 55 = Inr removedFront
     \<and> slice invalid_hex_src 55 end = Inr removedBack
     \<and> Fixed f' ''main.go'' =
         Some (take (nat start) invalid_hex_src
               @ (newLinesInRange removedFront @ ''panic('' @ goQuote hex_msg @ '')''
                  @ newLinesInRange removedBack)
               @ tail @ drop (nat end) invalid_hex_src)
     \<and> newLinesInRange removedFront = filter (\<lambda>b. b = NL \<or> b = CR) removedFront
     \<and> newLinesInRange removedBack = filter (\<lambda>b. b = NL \<or> b = CR) removedBack
     \<and> lineBreaks (newLinesInRange removedFront) = lineBreaks removedFront
     \<and> lineBreaks (newLinesInRange removedBack) = lineBreaks removedBack"
proof -
  obtain f' where
    run: "fixError goQuote fixer0 (Some invalid_hex_file) ''main.go'' invalid_hex_src 55 hex_msg
            = Inr (True, f')"
    using invalid_hex_fixError_ex by blast
  from fixError_newline_preservation [OF hex_msg_general run] run show ?thesis by blast
qed

text \<open>
  C2. The claim: whenever the located block has a valid closing brace, \<open>findRangeToFix\<close>
  returns the range from the start of the located statement to the closing brace of the
  block, with a nil tail. On \<open>var g = func() int {}\<close> with the offset of the closing brace
  of the literal, \<open>findEnclosing\<close> finds the (empty) body of the literal as the block, its
  closing brace valid, and no statement; the first branch of \<open>findRangeToFix\<close> calls
  \<open>statement.Pos()\<close> on the nil statement and returns no range, and \<open>fixError\<close> faults with
  it for the error \<open>missing return\<close> that the type checker reports there. The branch
  that follows in \<open>findRangeToFix\<close> tests \<open>statement == nil\<close>; the first one does not.
\<close>

theorem findRangeToFix_valid_block_no_statement:
  "(case findEnclosing func_literal_file 31 of
      Inl e \<Rightarrow> False
    | Inr r \<Rightarrow> stmt r = None \<and> fnBody r = None \<and> block r = Some ([2, 1, 3, 1], 30, [], 31))
   \<and> IsValid 31
   \<and> findRangeToFix (Some func_literal_file) func_literal_src 30 = Inl NilDeref
   \<and> (case fixError goQuote fixer0 (Some func_literal_file) ''/src/p/g.go'' func_literal_src
              30 ''missing return'' of
        Inl e \<Rightarrow> e = NilDeref
      | Inr r \<Rightarrow> False)"
  by code_simp

text \<open>
  The statement that \<open>findEnclosing\<close> returns need not be a statement of the block it
  returns: a statement found in an outer block stays when the walk enters an inner
  block that has no statement at the position. On
  \<open>func f() { g := func() int { }; _ = g }\<close> with the offset of the closing brace of the
  literal, the statement is the assignment to \<open>g\<close>, a statement of the body of \<open>f\<close>, and
  the block is the body of the literal; the range goes from the start of the assignment
  to the closing brace of the literal, and the patch of \<open>fixError\<close> leaves \<open>_ = g\<close>
  behind the closing brace of \<open>f\<close>.
\<close>

lemma findRangeToFix_stale_statement:
  "(case findEnclosing nested_literal_file 42 of
      Inl e \<Rightarrow> False
    | Inr r \<Rightarrow>
        map_option fst (stmt r) = Some [2, 4, 0]
        \<and> map_option fst (fnBody r) = Some [2, 4]
        \<and> block r = Some ([2, 4, 0, 1, 1], 39, [], 42))
   \<and> findRangeToFix (Some nested_literal_file) nested_literal_src 41 = Inr (22, 41, [])
   \<and> (case fixError goQuote fixer0 (Some nested_literal_file) ''/src/p/f.go''
              nested_literal_src 41 ''missing return'' of
        Inr (fixed, f') \<Rightarrow>
          fixed
          \<and> Fixed f' ''/src/p/f.go''
              = Some (''package p'' @ [NL] @ ''func f() {'' @ [NL, TAB, NL]
                      @ ''panic('' @ [DQ] @ ''missing return'' @ [DQ] @ '')}''
                      @ [NL, TAB] @ ''_ = g'' @ [NL] @ ''}'' @ [NL])
      | Inl e \<Rightarrow> False)"
  by code_simp

text \<open>
  Where the broken statement is a statement of the body of a function, the range of the
  claim is what \<open>findRangeToFix\<close> returns. On \<open>invalid_hex.go\<close> it is the range that the
  repository's test expects.
\<close>

lemma findRangeToFix_invalid_hex:
  "findRangeToFix (Some invalid_hex_file) invalid_hex_src 55 = Inr (43, 60, [])"
  by code_simp

text \<open>
  The siblings do not matter, for a broken statement \<open>s0\<close> right in the body of a
  function: whatever quiet statements \<open>before\<close> precede it in the body (and whatever quiet
  declarations precede the function), when the position lies in the body, at or after
  the start of \<open>s0\<close> and before the statements \<open>after\<close>, the range is from the start of
  \<open>s0\<close> to the closing brace of the body.
\<close>

lemma findRangeToFix_siblings:
  assumes "Decls file = dsb @ FuncDecl d r nm t (Some (lb, before @ s0 # after, rb)) # dsa"
    and "Package file \<le> FileStart file + offset"
    and "quietO (FileStart file + offset) (Doc file)"
    and "quiet (FileStart file + offset) (Name file)"
    and "list_all (quiet (FileStart file + offset)) dsb"
    and "quietO (FileStart file + offset) d"
    and "quietO (FileStart file + offset) r"
    and "quiet (FileStart file + offset) nm"
    and "quiet (FileStart file + offset) t"
    and "Pos t \<le> FileStart file + offset"
    and "lb \<le> FileStart file + offset"
    and "FileStart file + offset \<le> rb + 1"
    and "IsValid rb"
    and "list_all (quiet (FileStart file + offset)) before"
    and "quiet (FileStart file + offset) s0"
    and "isStmt s0"
    and "notBlock s0"
    and "Pos s0 \<le> FileStart file + offset"
    and "list_all (\<lambda>n. FileStart file + offset < Pos n) after"
  shows "findRangeToFix (Some file) content offset =
           Inr (Pos s0 - FileStart file, rb - FileStart file, [])"
  using findEnclosing_siblings [OF assms] assms(13)
  by (simp add: findRangeToFix_def offsetOf_def)

lemma findRangeToFix_siblings_example:
  "findRangeToFix (Some siblings_file) siblings_src 41 = Inr (39, 46, [])"
proof -
  have d: "Decls siblings_file
             = [] @ FuncDecl None None (Ident 20 ''main'')
                      (Other 15 26 [None, Some (Other 24 26 []), None])
                      (Some (27, siblings_before @ siblings_broken # [], 47)) # []"
    by (simp add: siblings_file_def)
  have "findRangeToFix (Some siblings_file) siblings_src 41 =
          Inr (Pos siblings_broken - FileStart siblings_file, 47 - FileStart siblings_file, [])"
    by (rule findRangeToFix_siblings [OF d])
       (simp_all add: siblings_file_def siblings_before_def siblings_broken_def IsValid_def
          notBlock_def)
  then show ?thesis by (simp add: siblings_file_def siblings_broken_def)
qed

text \<open>
  C3 (amended). When the first declaration that covers the position is an import
  declaration, and the first of its entries that covers the position is an import entry,
  \<open>fixUnusedImport\<close> returns true and the new content of the file is
  \<^item> for an entry without a name, the old content with the two bytes \<open>_ \<close> inserted
    before the path;
  \<^item> for an entry with a name that a space follows, the old content with the bytes of the
    name replaced by the byte \<open>_\<close>.

  All the other bytes are kept, and no other file changes. The positions of the entry
  are taken to lie within the content. A name that something else than a space follows
  is left aside.
\<close>

theorem fixUnusedImport_patch:
  assumes "find (covers (FileStart file + offset)) (Decls file)
             = Some (GenDecl dp de IMPORT doc specs)"
    and "find (covers (FileStart file + offset)) specs = Some (ImportSpec sdoc nm pth c e)"
  shows "(nm = None \<and> 0 \<le> fst pth - FileStart file
            \<and> fst pth - FileStart file \<le> int (length content)
          \<longrightarrow> fixUnusedImport f (Some file) filename content offset =
                Inr (True, f\<lparr>Fixed := (Fixed f)(filename \<mapsto>
                       take (nat (fst pth - FileStart file)) content @ ''_ ''
                         @ drop (nat (fst pth - FileStart file)) content)\<rparr>))
       \<and> (\<forall>np name.
             nm = Some (np, name) \<and> 0 \<le> np - FileStart file
             \<and> np - FileStart file + int (length name) < int (length content)
             \<and> content ! nat (np - FileStart file + int (length name)) = CHR '' ''
             \<longrightarrow> fixUnusedImport f (Some file) filename content offset =
                   Inr (True, f\<lparr>Fixed := (Fixed f)(filename \<mapsto>
                          take (nat (np - FileStart file)) content @ ''_''
                            @ drop (nat (np - FileStart file + int (length name))) content)\<rparr>))"
proof (intro conjI allI impI)
  assume h: "nm = None \<and> 0 \<le> fst pth - FileStart file
               \<and> fst pth - FileStart file \<le> int (length content)"
  with assms show "fixUnusedImport f (Some file) filename content offset =
      Inr (True, f\<lparr>Fixed := (Fixed f)(filename \<mapsto>
             take (nat (fst pth - FileStart file)) content @ ''_ ''
               @ drop (nat (fst pth - FileStart file)) content)\<rparr>)"
    by (simp add: fixUnusedImport_def Let_def slice_to_def slice_from_def slice_def update_def)
next
  fix np name
  assume h: "nm = Some (np, name) \<and> 0 \<le> np - FileStart file
             \<and> np - FileStart file + int (length name) < int (length content)
             \<and> content ! nat (np - FileStart file + int (length name)) = CHR '' ''"
  define k where "k = nat (np - FileStart file + int (length name))"
  from h have k: "k < length content" "content ! k = CHR '' ''"
    and k1: "nat (np - FileStart file + (int (length name) + 1)) = Suc k"
    by (auto simp: k_def)
  from k have d: "drop k content = CHR '' '' # drop (Suc k) content"
    by (metis Cons_nth_drop_Suc)
  from assms h have "fixUnusedImport f (Some file) filename content offset =
      Inr (True, f\<lparr>Fixed := (Fixed f)(filename \<mapsto>
             take (nat (np - FileStart file)) content @ ''_ ''
               @ drop (nat (np - FileStart file + (int (length name) + 1))) content)\<rparr>)"
    by (simp add: fixUnusedImport_def Let_def slice_to_def slice_from_def slice_def update_def)
  with k1 d show "fixUnusedImport f (Some file) filename content offset =
                   Inr (True, f\<lparr>Fixed := (Fixed f)(filename \<mapsto>
                          take (nat (np - FileStart file)) content @ ''_''
                            @ drop (nat (np - FileStart file + int (length name))) content)\<rparr>)"
    by (simp add: k_def)
qed

text \<open>
  The theorem on an entry without a name, \<open>import "fmt"\<close>, and on an entry with a name,
  \<open>import fmt "fmt"\<close>: both become \<open>import _ "fmt"\<close>.
\<close>

theorem fixUnusedImport_patch_witness:
  "fixUnusedImport fixer0 (Some (unused_import_file 1)) ''a.go'' unused_import_src 17 =
     Inr (True, fixer0\<lparr>Fixed := (Fixed fixer0)(''a.go'' \<mapsto>
            ''package p'' @ [NL] @ ''import _ '' @ [DQ] @ ''fmt'' @ [DQ, NL])\<rparr>)
   \<and> fixUnusedImport fixer0 (Some named_import_file) ''a.go'' named_import_src 17 =
     Inr (True, fixer0\<lparr>Fixed := (Fixed fixer0)(''a.go'' \<mapsto>
            ''package p'' @ [NL] @ ''import _ '' @ [DQ] @ ''fmt'' @ [DQ, NL])\<rparr>)"
proof
  have d: "find (covers (FileStart (unused_import_file 1) + 17)) (Decls (unused_import_file 1))
             = Some (GenDecl 11 23 IMPORT None
                       [ImportSpec None None (18, [DQ] @ ''fmt'' @ [DQ]) None 0])"
    by (simp add: unused_import_file_def covers_def)
  have s: "find (covers (FileStart (unused_import_file 1) + 17))
             [ImportSpec None None (18, [DQ] @ ''fmt'' @ [DQ]) None 0]
             = Some (ImportSpec None None (18, [DQ] @ ''fmt'' @ [DQ]) None 0)"
    by (simp add: unused_import_file_def covers_def)
  from fixUnusedImport_patch [OF d s, of unused_import_src fixer0 "''a.go''"]
  show "fixUnusedImport fixer0 (Some (unused_import_file 1)) ''a.go'' unused_import_src 17 =
     Inr (True, fixer0\<lparr>Fixed := (Fixed fixer0)(''a.go'' \<mapsto>
            ''package p'' @ [NL] @ ''import _ '' @ [DQ] @ ''fmt'' @ [DQ, NL])\<rparr>)"
    by (simp add: unused_import_file_def unused_import_src_def)
next
  have d: "find (covers (FileStart named_import_file + 17)) (Decls named_import_file)
             = Some (GenDecl 11 27 IMPORT None
                       [ImportSpec None (Some (18, ''fmt'')) (22, [DQ] @ ''fmt'' @ [DQ]) None 0])"
    by (simp add: named_import_file_def covers_def)
  have s: "find (covers (FileStart named_import_file + 17))
             [ImportSpec None (Some (18, ''fmt'')) (22, [DQ] @ ''fmt'' @ [DQ]) None 0]
             = Some (ImportSpec None (Some (18, ''fmt'')) (22, [DQ] @ ''fmt'' @ [DQ]) None 0)"
    by (simp add: named_import_file_def covers_def)
  from fixUnusedImport_patch [OF d s, of named_import_src fixer0 "''a.go''"]
  show "fixUnusedImport fixer0 (Some named_import_file) ''a.go'' named_import_src 17 =
     Inr (True, fixer0\<lparr>Fixed := (Fixed fixer0)(''a.go'' \<mapsto>
            ''package p'' @ [NL] @ ''import _ '' @ [DQ] @ ''fmt'' @ [DQ, NL])\<rparr>)"
    by (simp add: named_import_file_def named_import_src_def)
qed

text \<open>
  The claim as stated fails: on \<open>import fmt "fmt"\<close> the name is not deleted, leaving
  \<open>import "fmt"\<close>; it is replaced by the discard marker.
\<close>

theorem fixUnusedImport_named_counterexample:
  "(case fixUnusedImport fixer0 (Some named_import_file) ''a.go'' named_import_src 17 of
      Inl e \<Rightarrow> False
    | Inr (fixed, f') \<Rightarrow>
        fixed \<and> Fixed f' ''a.go'' =
          Some (''package p'' @ [NL] @ ''import _ '' @ [DQ] @ ''fmt'' @ [DQ, NL]))
   \<and> ''package p'' @ [NL] @ ''import _ '' @ [DQ] @ ''fmt'' @ [DQ, NL]
       \<noteq> ''package p'' @ [NL] @ ''import '' @ [DQ] @ ''fmt'' @ [DQ, NL]"
  by code_simp

text \<open>
  C4 (amended). \<open>findRangeToFix\<close> reaches its scan with a statement when the located block
  has no valid closing brace and a function body and a statement were found. When the
  forward scan from the start of the statement finds no closing brace (it finds nothing,
  \<open>e1 = -1\<close>, or a character that is not \<open>}\<close>) and the backward scan of the scanned text
  finds no closing brace at the end of a line, the range ends at the index the forward
  scan found, or, when it found nothing, at the last byte of the file (offset
  \<open>len(content) - 1\<close>, so the last byte is kept), and the tail is \<open>}\<close>.
\<close>

theorem findRangeToFix_synthesized:
  assumes enc: "findEnclosing file (FileStart file + offset) = Inr r"
    and noblock: "(case block r of None \<Rightarrow> False | Some (bp, lb, l, rb) \<Rightarrow> IsValid rb) = False"
    and body: "fnBody r = Some (fp, flb, fl, frb)"
    and st: "stmt r = Some st"
    and sel: "(if map_option fst (block r) = Some fp then Some st
               else reselect (FileStart file + offset) fp 0 fl (Some st)) = Some (sp, statement)"
    and start: "start = Pos statement - FileStart file" "0 \<le> start" "start < int (length content)"
    and fwd: "e1 = indexFwd False 0 (drop (nat start) content)"
    and nobrace: "e1 = - 1 \<or> content ! nat (start + e1) \<noteq> CHR ''}''"
    and e2: "e2 = (if e1 = - 1 then int (length content) - start - 1 else e1)"
    and bwd: "lastIndexBwd False (rev (take (nat e2) (drop (nat start) content))) = - 1"
  shows "findRangeToFix (Some file) content offset =
           Inr (start, (if e1 = - 1 then int (length content) - 1 else start + e1), ''}'')"
proof -
  define tail where "tail = drop (nat start) content"
  from start have tail: "slice_from content start = Inr tail"
    by (simp add: slice_from_def slice_def tail_def)
  from start have len: "int (length tail) = int (length content) - start"
    by (auto simp: tail_def)
  from indexFwd_range [OF fwd [symmetric]]
  have e1: "e1 = - 1 \<or> (0 \<le> e1 \<and> e1 < int (length tail))" by (simp add: tail_def)
  from e2 len have e2': "e2 = (if e1 = - 1 then int (length tail) - 1 else e1)" by simp
  with e1 start len have "0 \<le> e2" "e2 \<le> int (length tail)" by auto
  then have scanned: "slice_to tail e2 = Inr (take (nat e2) tail)"
    by (simp add: slice_to_def slice_def)
  have "tail ! nat e1 = content ! nat (start + e1)" if "0 \<le> e1" "e1 < int (length tail)"
    using that start by (simp add: tail_def nat_add_distrib)
  with e1 nobrace have nb: "\<not> (e1 > - 1 \<and> tail ! nat e1 = CHR ''}'')" by auto
  have scan: "findRangeToFix_scan content start = Inr (start, start + e2, ''}'')"
    by (rule findRangeToFix_scan_synthesized [OF tail _ nb e2' scanned])
       (use fwd bwd in \<open>simp_all add: tail_def\<close>)
  have "findRangeToFix (Some file) content offset = findRangeToFix_scan content start"
    using enc noblock body st sel start(1)
    by (simp add: findRangeToFix_def offsetOf_def Let_def)
  with scan e2 show ?thesis by auto
qed


lemma noclosebrace_findEnclosing:
  "findEnclosing noclosebrace_file (FileStart noclosebrace_file + 39) =
     Inr \<lparr>stmt = Some ([2, 4, 0], noclosebrace_stmt),
           block = Some ([2, 4], 26, [noclosebrace_stmt], 0),
           fnBody = Some ([2, 4], 26, [noclosebrace_stmt], 0)\<rparr>"
  by code_simp

theorem findRangeToFix_synthesized_witness:
  "findRangeToFix (Some noclosebrace_file) noclosebrace_src 39 =
     Inr (27, int (length noclosebrace_src) - 1, ''}'')"
proof -
  let ?r = "\<lparr>stmt = Some ([2, 4, 0], noclosebrace_stmt),
            block = Some ([2, 4], 26, [noclosebrace_stmt], 0),
            fnBody = Some ([2, 4], 26, [noclosebrace_stmt], 0)\<rparr>"
  have noblock: "(case block ?r of None \<Rightarrow> False | Some (bp, lb, l, rb) \<Rightarrow> IsValid rb) = False"
    by (simp add: IsValid_def)
  have body: "fnBody ?r = Some ([2, 4], 26, [noclosebrace_stmt], 0)" by simp
  have st: "stmt ?r = Some ([2, 4, 0], noclosebrace_stmt)" by simp
  have sel: "(if map_option fst (block ?r) = Some [2, 4] then Some ([2, 4, 0], noclosebrace_stmt)
              else reselect (FileStart noclosebrace_file + 39) [2, 4] 0 [noclosebrace_stmt]
                     (Some ([2, 4, 0], noclosebrace_stmt)))
             = Some ([2, 4, 0], noclosebrace_stmt)"
    by simp
  have start: "(27::int) = Pos noclosebrace_stmt - FileStart noclosebrace_file"
    "(0::int) \<le> 27" "27 < int (length noclosebrace_src)"
    by code_simp+
  have fwd: "(- 1::int) = indexFwd False 0 (drop (nat 27) noclosebrace_src)"
    by code_simp
  have e2: "(18::int) = (if (- 1::int) = - 1 then int (length noclosebrace_src) - 27 - 1 else - 1)"
    by code_simp
  have bwd: "lastIndexBwd False (rev (take (nat 18) (drop (nat 27) noclosebrace_src))) = - 1"
    by code_simp
  from findRangeToFix_synthesized
         [OF noclosebrace_findEnclosing noblock body st sel start fwd _ e2 bwd]
  show ?thesis by simp
qed

text \<open>
  The claim as stated fails: on \<open>noclosebrace.go\<close> the forward scan finds nothing and the
  range ends at offset 45, one byte before the end of the file at 46.
\<close>

theorem findRangeToFix_noclosebrace_counterexample:
  "indexFwd False 0 (drop 27 noclosebrace_src) = - 1
   \<and> findRangeToFix (Some noclosebrace_file) noclosebrace_src 39 = Inr (27, 45, ''}'')
   \<and> int (length noclosebrace_src) = 46"
  by code_simp









text \<open>
  C7. When every file that \<open>packages.Load\<close> reads parses without error and the packages
  it answers have no type errors, \<open>Fix\<close> returns no error after one pass and leaves the
  fixer, and so the \<open>Fixed\<close> map, as it was.
\<close>

theorem Fix_valid_source:
  assumes "loadFiles x (mode f) pkgNames (Fixed f) = Inr srcs"
    and "list_all (\<lambda>(filename, content). snd (parseGo x filename content) = None) srcs"
    and "list_all (\<lambda>pkg. TypeErrors pkg = [])
           (typeCheck x (mode f) pkgNames
              (map (\<lambda>(filename, content). (filename, parseGo x filename content)) srcs))"
  shows "Fix x f pkgNames = (Inr None, f, 1)"
proof -
  from assms(1,2) have "Load x f pkgNames
      = Inr (Inr (typeCheck x (mode f) pkgNames
                    (map (\<lambda>(filename, content). (filename, parseGo x filename content)) srcs)), f)"
    by (simp add: Load_def parseAll_valid)
  moreover from assms(3) have "fixPkgs x f
      (typeCheck x (mode f) pkgNames
         (map (\<lambda>(filename, content). (filename, parseGo x filename content)) srcs)) False
      = Inr (Inr False, f)"
    by (rule fixPkgs_no_errors)
  ultimately show ?thesis
    by (simp add: Fix_def Fix_loop.simps [of x f pkgNames 0])
qed

theorem Fix_valid_source_witness:
  "Fix (ext_pkg [clean_pkg]) fixer0 [''./...''] = (Inr None, fixer0, 1)"
proof -
  have t: "list_all (\<lambda>pkg. TypeErrors pkg = [])
           (typeCheck (ext_pkg [clean_pkg]) (mode fixer0) [''./...'']
              (map (\<lambda>(filename, content).
                      (filename, parseGo (ext_pkg [clean_pkg]) filename content)) two_srcs))"
    by (simp add: ext_pkg_typeCheck clean_pkg_def)
  from Fix_valid_source [OF ext_pkg_loadFiles ext_pkg_parses t] show ?thesis .
qed

text \<open>
  C8. When a build reports a unit that is already marked as attempted, the loop of
  \<open>Prepare\<close> returns at once without error and leaves \<open>built\<close>, the mode and the arguments
  as they were; with \<open>built\<close> false, \<open>Run\<close> runs \<open>go\<close> with the mode and the original
  arguments and no overlay. And whenever all the unit names that the builds report lie
  in one finite set, \<open>Prepare\<close> returns: the loop needs no other bound.
\<close>

theorem Prepare_gives_up_and_terminates:
  "(\<forall>toFix exe ovl.
       getBrokenPackages x k (Fixed fixer) (exeFile r0) (overlayFile r0) = (Inr toFix, exe, ovl)
       \<and> set toFix \<inter> fixed \<noteq> {}
       \<longrightarrow> (\<exists>r'. Prepare_loop x r0 fixer fixed k = Some (Inr (None, r'))
                 \<and> built r' = built r0 \<and> rmode r' = rmode r0
                 \<and> buildArgs r' = buildArgs r0 \<and> runArgs r' = runArgs r0))
   \<and> (built r = False \<longrightarrow> Run r = Inr (Command ''go'' (rmode r # buildArgs r @ runArgs r)))
   \<and> (finite U
        \<and> (\<forall>k overlay exe ovl l. fst (getBrokenPackages x k overlay exe ovl) = Inr l \<longrightarrow> set l \<subseteq> U)
        \<longrightarrow> (\<exists>res. Prepare x r = Some res))"
proof (intro conjI allI impI)
  fix toFix exe ovl
  assume a: "getBrokenPackages x k (Fixed fixer) (exeFile r0) (overlayFile r0) = (Inr toFix, exe, ovl)
       \<and> set toFix \<inter> fixed \<noteq> {}"
  then have "Prepare_loop x r0 fixer fixed k
           = Some (Inr (None, r0\<lparr>rfixed := Fixed fixer, exeFile := exe, overlayFile := ovl\<rparr>))"
    by (intro Prepare_loop_gives_up) auto
  then show "\<exists>r'. Prepare_loop x r0 fixer fixed k = Some (Inr (None, r'))
                 \<and> built r' = built r0 \<and> rmode r' = rmode r0
                 \<and> buildArgs r' = buildArgs r0 \<and> runArgs r' = runArgs r0"
    by simp
next
  assume "built r = False"
  then show "Run r = Inr (Command ''go'' (rmode r # buildArgs r @ runArgs r))"
    by (simp add: Run_def)
next
  assume a: "finite U
        \<and> (\<forall>k overlay exe ovl l. fst (getBrokenPackages x k overlay exe ovl) = Inr l \<longrightarrow> set l \<subseteq> U)"
  then have "finite U"
    and "\<And>k overlay exe ovl l. fst (getBrokenPackages x k overlay exe ovl) = Inr l \<Longrightarrow> set l \<subseteq> U"
    by blast+
  then show "\<exists>res. Prepare x r = Some res"
    unfolding Prepare_def by (rule Prepare_loop_returns)
qed

theorem Prepare_gives_up_and_terminates_witness:
  "(\<exists>r'. Prepare_loop ext_stuck runner1 fixer0 {''example.com/p''} 1 = Some (Inr (None, r'))
         \<and> built r' = built runner1 \<and> rmode r' = rmode runner1
         \<and> buildArgs r' = buildArgs runner1 \<and> runArgs r' = runArgs runner1)
   \<and> Run runner1 = Inr (Command ''go'' [''run'', ''.''])
   \<and> (\<exists>res. Prepare ext_stuck runner0 = Some res)
   \<and> Prepare ext_stuck runner0 = Some (Inr (None, runner1))"
proof -
  note inst1 = Prepare_gives_up_and_terminates
    [where x = ext_stuck and k = 1 and fixer = fixer0 and ?r0.0 = runner1
       and fixed = "{''example.com/p''}" and r = runner1 and U = "{''example.com/p''}"]
  note inst2 = Prepare_gives_up_and_terminates
    [where x = ext_stuck and k = 1 and fixer = fixer0 and ?r0.0 = runner1
       and fixed = "{''example.com/p''}" and r = runner0 and U = "{''example.com/p''}"]
  have g: "getBrokenPackages ext_stuck k overlay exe ovl = (Inr [''example.com/p''], ''/tmp/golo-1'', ovl)"
    for k overlay exe ovl
    by (simp add: ext_stuck_def)
  have "built runner1 = False" by (simp add: runner1_def runner0_def)
  moreover have "rmode runner1 # buildArgs runner1 @ runArgs runner1 = [''run'', ''.'']"
    by (simp add: runner1_def runner0_def)
  moreover have "finite {''example.com/p''}" by simp
  moreover have "\<forall>k overlay exe ovl l.
      fst (getBrokenPackages ext_stuck k overlay exe ovl) = Inr l \<longrightarrow> set l \<subseteq> {''example.com/p''}"
    by (auto simp: g)
  moreover have "set [''example.com/p''] \<inter> {''example.com/p''} \<noteq> {}" by simp
  ultimately have
    "(\<exists>r'. Prepare_loop ext_stuck runner1 fixer0 {''example.com/p''} 1 = Some (Inr (None, r'))
         \<and> built r' = built runner1 \<and> rmode r' = rmode runner1
         \<and> buildArgs r' = buildArgs runner1 \<and> runArgs r' = runArgs runner1)
     \<and> Run runner1 = Inr (Command ''go'' [''run'', ''.''])
     \<and> (\<exists>res. Prepare ext_stuck runner0 = Some res)"
    using inst1 inst2 g by metis
  with stuck_Prepare show ?thesis by blast
qed

text \<open>
  C9. The claim: \<open>findRangeToFix\<close> never faults on a parsed file, because a block with a
  valid closing brace always comes with a statement. On \<open>func f() int {}\<close> with the
  offset of the closing brace, \<open>findEnclosing\<close> finds the (empty) body as the block and no
  statement, and the first branch of \<open>findRangeToFix\<close> dereferences the nil statement;
  so does \<open>fixError\<close> for the error \<open>missing return\<close> that the type checker reports there.
\<close>

theorem findRangeToFix_nil_statement:
  "findRangeToFix (Some missing_return_file) missing_return_src 24 = Inl NilDeref
   \<and> (case findEnclosing missing_return_file 25 of
        Inl e \<Rightarrow> False
      | Inr r \<Rightarrow> stmt r = None \<and> block r = Some ([2, 4], 24, [], 25))
   \<and> IsValid 25
   \<and> (case fixError goQuote fixer0 (Some missing_return_file) ''/src/p/f.go'' missing_return_src
              24 ''missing return'' of
        Inl e \<Rightarrow> e = NilDeref
      | Inr r \<Rightarrow> False)"
  by code_simp

text \<open>
  C10. When \<open>fixError\<close> returns false the fixer is unchanged; when it returns true the
  new fixer is the old one with the entry of \<open>filename\<close> replaced, so no other entry of
  \<open>Fixed\<close> changes.
\<close>

theorem fixError_atomic:
  assumes "fixError quote f file filename content offset msg = Inr (fixed, f')"
  shows "if fixed then (\<exists>new. f' = f\<lparr>Fixed := (Fixed f)(filename \<mapsto> new)\<rparr>) else f' = f"
  using fixError_patched [OF assms] by (auto simp: patched_def split: if_splits)

theorem fixError_atomic_witness:
  "\<exists>f' new. fixError goQuote fixer0 (Some invalid_hex_file) ''main.go'' invalid_hex_src 55 hex_msg
            = Inr (True, f')
     \<and> f' = fixer0\<lparr>Fixed := (Fixed fixer0)(''main.go'' \<mapsto> new)\<rparr>"
proof -
  obtain f' where
    run: "fixError goQuote fixer0 (Some invalid_hex_file) ''main.go'' invalid_hex_src 55 hex_msg
            = Inr (True, f')"
    using invalid_hex_fixError_ex by blast
  from fixError_atomic [OF run] show ?thesis using run by auto
qed


end
